theory Spec2Isabelle
  imports Main "HOL-Library.Product_Lexorder" "HOL-Library.Option_ord"
begin

section \<open>The DSOG delivery service worker (src/sw.js)\<close>

text \<open>
  A shallow embedding of the service worker. The worker is written against the browser
  platform (URL, URLSearchParams, Request, Response, Cache, fetch, IndexedDB, push
  events); the parts of the platform the worker calls are modelled first, each at the
  level the worker uses it, then every function of the worker is translated in the
  order of the source. Strings are byte strings (\<open>char list\<close>).
\<close>

subsection \<open>Platform: strings\<close>

text \<open>\<open>String.prototype.includes\<close>: does \<open>pat\<close> occur in \<open>s\<close> as a contiguous run.\<close>

fun starts_with :: "string \<Rightarrow> string \<Rightarrow> bool" where
  "starts_with s [] = True"
| "starts_with [] (p # ps) = False"
| "starts_with (c # cs) (p # ps) = (c = p \<and> starts_with cs ps)"

fun str_includes :: "string \<Rightarrow> string \<Rightarrow> bool" where
  "str_includes [] pat = (pat = [])"
| "str_includes (c # cs) pat = (starts_with (c # cs) pat \<or> str_includes cs pat)"

text \<open>\<open>split\<close> on a one-character separator (\<open>''a&b''\<close> gives two pieces, the empty
  string gives one empty piece) and \<open>join\<close>, its inverse.\<close>

fun split_on :: "char \<Rightarrow> string \<Rightarrow> string list" where
  "split_on d [] = [[]]"
| "split_on d (c # cs) =
     (if c = d then [] # split_on d cs
      else (case split_on d cs of [] \<Rightarrow> [[c]] | x # xs \<Rightarrow> (c # x) # xs))"

fun join :: "string \<Rightarrow> string list \<Rightarrow> string" where
  "join d [] = []"
| "join d [x] = x"
| "join d (x # y # ys) = x @ d @ join d (y # ys)"

text \<open>ASCII lower case, for the case-insensitive names of HTTP headers.\<close>

definition to_lower :: "char \<Rightarrow> char" where
  "to_lower c =
     (let n = (of_char c :: nat) in if 65 \<le> n \<and> n \<le> 90 then char_of (n + 32) else c)"

subsection \<open>Platform: URLSearchParams (application/x-www-form-urlencoded)\<close>

text \<open>
  The serializer leaves ASCII letters, digits and \<open>* - . _\<close> as they are, writes a
  space as \<open>+\<close> and every other byte as \<open>%XX\<close> with upper-case hexadecimal digits.
  The parser splits on \<open>&\<close>, skips empty pieces, splits each piece at its first
  \<open>=\<close>, turns \<open>+\<close> into a space and percent-decodes name and value. (The UTF-8
  decoding of the decoded bytes is left out: strings are byte strings here.)
\<close>

definition unreserved :: "char \<Rightarrow> bool" where
  "unreserved c =
     (let n = (of_char c :: nat) in
        (48 \<le> n \<and> n \<le> 57) \<or> (65 \<le> n \<and> n \<le> 90) \<or> (97 \<le> n \<and> n \<le> 122)
        \<or> n = 42 \<or> n = 45 \<or> n = 46 \<or> n = 95)"

definition hex_digit :: "nat \<Rightarrow> char" where
  "hex_digit n = (if n < 10 then char_of (48 + n) else char_of (55 + n))"

definition hex_val :: "char \<Rightarrow> nat option" where
  "hex_val c =
     (let n = (of_char c :: nat) in
        if 48 \<le> n \<and> n \<le> 57 then Some (n - 48)
        else if 65 \<le> n \<and> n \<le> 70 then Some (n - 55)
        else if 97 \<le> n \<and> n \<le> 102 then Some (n - 87)
        else None)"

definition encode_byte :: "char \<Rightarrow> string" where
  "encode_byte c =
     (if c = CHR '' '' then ''+''
      else if unreserved c then [c]
      else [CHR ''%'', hex_digit ((of_char c :: nat) div 16),
            hex_digit ((of_char c :: nat) mod 16)])"

definition form_encode :: "string \<Rightarrow> string" where
  "form_encode s = concat (map encode_byte s)"

fun percent_decode :: "string \<Rightarrow> string" where
  "percent_decode [] = []"
| "percent_decode (c # cs) =
     (if c = CHR ''%'' then
        (case cs of
           h # l # rest \<Rightarrow>
             (case hex_val h of
                Some a \<Rightarrow>
                  (case hex_val l of
                     Some b \<Rightarrow> char_of (a * 16 + b) # percent_decode rest
                   | None \<Rightarrow> c # percent_decode cs)
              | None \<Rightarrow> c # percent_decode cs)
         | _ \<Rightarrow> c # percent_decode cs)
      else c # percent_decode cs)"

definition form_decode :: "string \<Rightarrow> string" where
  "form_decode s = percent_decode (map (\<lambda>c. if c = CHR ''+'' then CHR '' '' else c) s)"

type_synonym params = "(string \<times> string) list"

definition parse_pair :: "string \<Rightarrow> string \<times> string" where
  "parse_pair s =
     (form_decode (takeWhile (\<lambda>c. c \<noteq> CHR ''='') s),
      form_decode (drop 1 (dropWhile (\<lambda>c. c \<noteq> CHR ''='') s)))"

text \<open>\<open>new URLSearchParams(init)\<close> for a string: one leading \<open>?\<close> is dropped.\<close>

definition URLSearchParams :: "string \<Rightarrow> params" where
  "URLSearchParams init =
     (let input = (case init of c # cs \<Rightarrow> if c = CHR ''?'' then cs else init | [] \<Rightarrow> init)
      in map parse_pair (filter (\<lambda>piece. piece \<noteq> []) (split_on (CHR ''&'') input)))"

text \<open>\<open>params.delete(name)\<close> removes every pair of that name.\<close>

definition params_delete :: "string \<Rightarrow> params \<Rightarrow> params" where
  "params_delete name ps = filter (\<lambda>(n, v). n \<noteq> name) ps"

definition encode_pair :: "string \<times> string \<Rightarrow> string" where
  "encode_pair p = form_encode (fst p) @ ''='' @ form_encode (snd p)"

definition params_toString :: "params \<Rightarrow> string" where
  "params_toString ps = join ''&'' (map encode_pair ps)"

subsection \<open>Platform: URL and Request\<close>

text \<open>
  A \<open>url\<close> is the result of \<open>new URL(request.url)\<close> for a hierarchical URL: the
  scheme with its colon (\<open>url.protocol\<close>), host with port, path, and the query and
  fragment, each absent (\<open>None\<close>) or present without its \<open>?\<close> or \<open>#\<close>.
\<close>

record url =
  protocol :: string
  host :: string
  pathname :: string
  query :: "string option"
  fragment :: "string option"

definition url_origin :: "url \<Rightarrow> string" where
  "url_origin u = protocol u @ ''//'' @ host u"

definition url_href :: "url \<Rightarrow> string" where
  "url_href u =
     protocol u @ ''//'' @ host u @ pathname u
       @ (case query u of None \<Rightarrow> [] | Some q \<Rightarrow> ''?'' @ q)
       @ (case fragment u of None \<Rightarrow> [] | Some f \<Rightarrow> ''#'' @ f)"

text \<open>The \<open>url.search\<close> getter: empty for an absent or empty query.\<close>

definition url_search :: "url \<Rightarrow> string" where
  "url_search u = (case query u of None \<Rightarrow> [] | Some q \<Rightarrow> if q = [] then [] else ''?'' @ q)"

text \<open>
  The \<open>url.search\<close> setter: the empty string removes the query; otherwise one leading
  \<open>?\<close> is dropped and the rest becomes the query. (The setter also percent-encodes
  control bytes, space, \<open>"\<close>, \<open>#\<close>, \<open><\<close>, \<open>>\<close>, \<open>'\<close> and non-ASCII bytes; the worker
  only passes it the output of \<open>params.toString()\<close>, which has none of them, see
  \<open>params_toString_chars\<close>.)
\<close>

definition url_set_search :: "string \<Rightarrow> url \<Rightarrow> url" where
  "url_set_search v u =
     (if v = [] then u\<lparr>query := None\<rparr>
      else u\<lparr>query := Some (case v of c # cs \<Rightarrow> if c = CHR ''?'' then cs else v | [] \<Rightarrow> v)\<rparr>)"

text \<open>A request; \<open>http_method\<close> is \<open>request.method\<close>.\<close>

record request =
  http_method :: string
  url :: url
  headers :: "(string \<times> string) list"
  body :: "string option"

text \<open>\<open>headers.get(name)\<close>: names compare without case; several values of one name are
  joined with a comma and a space; \<open>None\<close> is JavaScript's \<open>null\<close>.\<close>

definition headers_get :: "(string \<times> string) list \<Rightarrow> string \<Rightarrow> string option" where
  "headers_get hs name =
     (case filter (\<lambda>(n, v). map to_lower n = map to_lower name) hs of
        [] \<Rightarrow> None
      | vs \<Rightarrow> Some (join '', '' (map snd vs)))"

subsection \<open>generateCacheKey (sw.js 375-386)\<close>

text \<open>
  \<open>new Request(url.toString(), request)\<close> is the request with its URL replaced: the
  platform parses the serialized URL back to the same \<open>url\<close>. (Requests are the calls
  pages make with \<open>fetch\<close>; the request mode, which the constructor reads for a
  navigation, is not part of the model.)
\<close>

definition generateCacheKey :: "request \<Rightarrow> request" where
  "generateCacheKey request =
     (let u = url request;
          params = URLSearchParams (url_search u);
          params = params_delete ''timestamp'' params;
          params = params_delete ''_'' params;
          params = params_delete ''cacheBuster'' params;
          u = url_set_search (params_toString params) u
      in request\<lparr>url := u\<rparr>)"

text \<open>The three deletions together, and the bytes the serializer can produce.\<close>

definition strip_volatile :: "params \<Rightarrow> params" where
  "strip_volatile ps =
     params_delete ''cacheBuster'' (params_delete ''_'' (params_delete ''timestamp'' ps))"

definition urlencoded_char :: "char \<Rightarrow> bool" where
  "urlencoded_char c = (unreserved c \<or> c = CHR ''+'' \<or> c = CHR ''%'')"

text \<open>
  Two requests differ only in the stripped parameters: they agree in everything but the
  query, and their parameter lists agree once \<open>timestamp\<close>, \<open>_\<close> and
  \<open>cacheBuster\<close> are removed from both.
\<close>

definition differ_only_in_stripped :: "request \<Rightarrow> request \<Rightarrow> bool" where
  "differ_only_in_stripped r1 r2 =
     (http_method r1 = http_method r2 \<and> headers r1 = headers r2 \<and> body r1 = body r2
      \<and> protocol (url r1) = protocol (url r2) \<and> host (url r1) = host (url r2)
      \<and> pathname (url r1) = pathname (url r2) \<and> fragment (url r1) = fragment (url r2)
      \<and> strip_volatile (URLSearchParams (url_search (url r1)))
          = strip_volatile (URLSearchParams (url_search (url r2))))"

subsection \<open>Platform: JSON values, Response, errors\<close>

datatype json =
  JNull | JBool bool | JNum int | JStr string | JArr "json list" | JObj "(string \<times> json) list"

text \<open>What a rejected promise or a \<open>throw\<close> carries. \<open>ApiStatusError\<close> is the
  \<open>Error('API request failed with status: ...')\<close> of sw.js 228.\<close>

datatype error = NetworkError | TypeError | SyntaxError | ApiStatusError nat

text \<open>
  A body is kept up to JSON decoding: \<open>JsonText j\<close> is a text that \<open>JSON.parse\<close>
  decodes to \<open>j\<close> (\<open>JSON.stringify(j)\<close> is such a text), \<open>Undecodable t\<close> is a
  text \<open>t\<close> that \<open>JSON.parse\<close> rejects.
\<close>

datatype payload = Undecodable string | JsonText json

record response =
  status :: nat
  statusText :: string
  response_headers :: "(string \<times> string) list"
  response_body :: payload

text \<open>\<open>response.ok\<close>.\<close>

definition ok :: "response \<Rightarrow> bool" where
  "ok r = (200 \<le> status r \<and> status r \<le> 299)"

text \<open>\<open>response.json()\<close>: rejects with a SyntaxError on a body that is not JSON.\<close>

definition response_json :: "response \<Rightarrow> error + json" where
  "response_json r =
     (case response_body r of Undecodable t \<Rightarrow> Inl SyntaxError | JsonText j \<Rightarrow> Inr j)"

text \<open>
  A property read \<open>v.name\<close> on a decoded JSON value, for the names the worker reads
  (\<open>success\<close>, \<open>title\<close>, \<open>body\<close>, \<open>url\<close>): a TypeError on \<open>null\<close>, the field of an
  object, and \<open>undefined\<close> (\<open>None\<close>) otherwise.
\<close>

definition get_prop :: "json \<Rightarrow> string \<Rightarrow> error + json option" where
  "get_prop v name =
     (case v of JNull \<Rightarrow> Inl TypeError | JObj props \<Rightarrow> Inr (map_of props name) | _ \<Rightarrow> Inr None)"

fun truthy :: "json \<Rightarrow> bool" where
  "truthy JNull = False"
| "truthy (JBool b) = b"
| "truthy (JNum n) = (n \<noteq> 0)"
| "truthy (JStr t) = (t \<noteq> [])"
| "truthy (JArr xs) = True"
| "truthy (JObj fs) = True"

text \<open>\<open>a || b\<close> where \<open>a\<close> may be \<open>undefined\<close>.\<close>

definition js_or :: "json option \<Rightarrow> json \<Rightarrow> json" where
  "js_or a b = (case a of None \<Rightarrow> b | Some v \<Rightarrow> if truthy v then v else b)"

subsection \<open>Platform: Cache Storage and fetch\<close>

text \<open>
  A cache maps the URL of a request, without its fragment, to the stored value; a cache
  that was never opened and an empty one are the same map. The strategies are modelled
  for the requests the fetch listener hands them: GET requests over http or https. For
  these \<open>match\<close> and \<open>delete\<close> are the operations of a map, and \<open>put\<close> stores the
  response unless the platform refuses it (\<open>put_rejects\<close> below).
  The static namespace (\<open>CACHE_NAME\<close>) holds responses. In the API namespace
  (\<open>API_CACHE_NAME\<close>) the worker stores \<open>JSON.stringify({data, timestamp, url})\<close> and
  reads it back with \<open>.json()\<close>; the model keeps the decoded record.
\<close>

record cacheData =
  cd_data :: json
  cd_timestamp :: int
  cd_url :: string

record sw_state =
  static_cache :: "string \<rightharpoonup> response"
  api_cache :: "string \<rightharpoonup> cacheData"
  fetch_log :: "request list"

definition request_key :: "request \<Rightarrow> string" where
  "request_key r = url_href ((url r)\<lparr>fragment := None\<rparr>)"

text \<open>
  \<open>cache.put(request, response)\<close> rejects with a TypeError, and stores nothing, when the
  status of the response is 206 or its \<open>Vary\<close> header has the field value \<open>*\<close>
  (\<open>cache.addAll\<close> refuses the same responses).
\<close>

definition trim :: "string \<Rightarrow> string" where
  "trim t =
     rev (dropWhile (\<lambda>c. c = CHR '' '' \<or> c = CHR 0x09)
       (rev (dropWhile (\<lambda>c. c = CHR '' '' \<or> c = CHR 0x09) t)))"

definition vary_star :: "response \<Rightarrow> bool" where
  "vary_star r =
     (case headers_get (response_headers r) ''Vary'' of
        None \<Rightarrow> False
      | Some v \<Rightarrow> ''*'' \<in> set (map trim (split_on (CHR '','') v)))"

definition put_rejects :: "response \<Rightarrow> bool" where
  "put_rejects r = (status r = 206 \<or> vary_star r)"

definition cache_put ::
  "(string \<rightharpoonup> response) \<Rightarrow> request \<Rightarrow> response \<Rightarrow> error + (string \<rightharpoonup> response)" where
  "cache_put c request r =
     (if put_rejects r then Inl TypeError else Inr (c(request_key request \<mapsto> r)))"

text \<open>
  The network is a parameter: the answer to a request may depend on how many calls came
  before it. \<open>fetch\<close> records the call in \<open>fetch_log\<close>; \<open>Inl\<close> is a rejected promise.
\<close>

type_synonym transport = "nat \<Rightarrow> request \<Rightarrow> error + response"

definition fetch :: "transport \<Rightarrow> request \<Rightarrow> sw_state \<Rightarrow> (error + response) \<times> sw_state" where
  "fetch net r s = (net (length (fetch_log s)) r, s\<lparr>fetch_log := fetch_log s @ [r]\<rparr>)"

subsection \<open>Constants of the worker (sw.js 4-16)\<close>

definition OFFLINE_URL :: string where
  "OFFLINE_URL = ''/delivery/offline.html''"

definition MAX_CACHE_AGE :: int where
  "MAX_CACHE_AGE = 60 * 60 * 1000"

text \<open>A path of the worker's own origin, as a request (\<open>loc\<close> is \<open>self.location\<close>).\<close>

definition local_request :: "url \<Rightarrow> string \<Rightarrow> request" where
  "local_request loc path =
     \<lparr>http_method = ''GET'',
      url = \<lparr>protocol = protocol loc, host = host loc, pathname = path,
             query = None, fragment = None\<rparr>,
      headers = [], body = None\<rparr>"

definition https_request :: "string \<Rightarrow> string \<Rightarrow> string option \<Rightarrow> request" where
  "https_request h path q =
     \<lparr>http_method = ''GET'',
      url = \<lparr>protocol = ''https:'', host = h, pathname = path, query = q, fragment = None\<rparr>,
      headers = [], body = None\<rparr>"

definition PRECACHE_URLS :: "url \<Rightarrow> request list" where
  "PRECACHE_URLS loc =
     [local_request loc ''/delivery/'',
      local_request loc ''/delivery/index.html'',
      local_request loc ''/delivery/offline.html'',
      https_request ''i.postimg.cc'' ''/kMZ1jTww/Untitled-design-4-removebg-preview.png'' None,
      https_request ''cdnjs.cloudflare.com'' ''/ajax/libs/font-awesome/6.4.0/css/all.min.css'' None,
      https_request ''fonts.googleapis.com'' ''/css2''
        (Some ''family=Segoe+UI:wght@300;400;500;600;700&display=swap'')]"

subsection \<open>Responses the worker builds\<close>

text \<open>\<open>new Response('Network error', {status: 408, statusText: 'Network error'})\<close>.\<close>

definition network_error_response :: response where
  "network_error_response =
     \<lparr>status = 408, statusText = ''Network error'',
      response_headers = [(''Content-Type'', ''text/plain;charset=UTF-8'')],
      response_body = Undecodable ''Network error''\<rparr>"

text \<open>\<open>new Response(JSON.stringify(j), {headers: {'Content-Type': 'application/json'}})\<close>.\<close>

definition json_response :: "json \<Rightarrow> response" where
  "json_response j =
     \<lparr>status = 200, statusText = [],
      response_headers = [(''Content-Type'', ''application/json'')],
      response_body = JsonText j\<rparr>"

text \<open>The error response of sw.js 254-262.\<close>

definition failure_envelope :: response where
  "failure_envelope =
     \<lparr>status = 408, statusText = [],
      response_headers = [(''Content-Type'', ''application/json'')],
      response_body = JsonText (JObj
        [(''success'', JBool False),
         (''error'', JStr ''Network error''),
         (''message'', JStr ''Unable to connect. Please check your internet connection.''),
         (''data'', JArr [])])\<rparr>"

text \<open>The inline offline document of sw.js 287-357 (its markup abridged to the title
  and the heading).\<close>

definition inline_offline_page :: response where
  "inline_offline_page =
     \<lparr>status = 200, statusText = [],
      response_headers = [(''Content-Type'', ''text/html'')],
      response_body = Undecodable
        ''<!DOCTYPE html><html lang=en><head><title>DSOG Delivery - Offline</title></head><body><h1>You are Offline</h1></body></html>''\<rparr>"

subsection \<open>The strategies (sw.js 121-372)\<close>

text \<open>\<open>request.headers.get('Accept')?.includes('text/html')\<close>.\<close>

definition accepts_html :: "request \<Rightarrow> bool" where
  "accepts_html request =
     (case headers_get (headers request) ''Accept'' of
        None \<Rightarrow> False
      | Some v \<Rightarrow> str_includes v ''text/html'')"

text \<open>\<open>cache.match(OFFLINE_URL)\<close> on the static namespace: the path is resolved against
  the worker's own location.\<close>

definition match_offline :: "url \<Rightarrow> sw_state \<Rightarrow> response option" where
  "match_offline loc s = static_cache s (request_key (local_request loc OFFLINE_URL))"

text \<open>Each strategy returns what its promise settles to (\<open>Inr\<close> a response, \<open>Inl\<close> a
  rejection) and the state it leaves. A \<open>catch\<close> block is a definition of its own: it
  runs when the fetch rejects and when \<open>cache.put\<close>, inside the same \<open>try\<close>, rejects.\<close>

definition cacheFirst_catch :: "url \<Rightarrow> request \<Rightarrow> sw_state \<Rightarrow> (error + response) \<times> sw_state" where
  "cacheFirst_catch loc request s =
     (case (if accepts_html request then match_offline loc s else None) of
        Some offlineResponse \<Rightarrow> (Inr offlineResponse, s)
      | None \<Rightarrow> (Inr network_error_response, s))"

definition cacheFirstStrategy ::
  "transport \<Rightarrow> url \<Rightarrow> request \<Rightarrow> sw_state \<Rightarrow> (error + response) \<times> sw_state" where
  "cacheFirstStrategy net loc request s =
     (case static_cache s (request_key request) of
        Some cachedResponse \<Rightarrow> (Inr cachedResponse, s)
      | None \<Rightarrow>
          (case fetch net request s of
             (Inr networkResponse, s1) \<Rightarrow>
               if ok networkResponse then
                 (case cache_put (static_cache s1) request networkResponse of
                    Inr c \<Rightarrow> (Inr networkResponse, s1\<lparr>static_cache := c\<rparr>)
                  | Inl err \<Rightarrow> cacheFirst_catch loc request s1)
               else (Inr networkResponse, s1)
           | (Inl err, s1) \<Rightarrow> cacheFirst_catch loc request s1))"

definition networkFirst_catch ::
  "error \<Rightarrow> url \<Rightarrow> request \<Rightarrow> sw_state \<Rightarrow> (error + response) \<times> sw_state" where
  "networkFirst_catch err loc request s =
     (case static_cache s (request_key request) of
        Some cachedResponse \<Rightarrow> (Inr cachedResponse, s)
      | None \<Rightarrow>
          (case (if accepts_html request then match_offline loc s else None) of
             Some offlineResponse \<Rightarrow> (Inr offlineResponse, s)
           | None \<Rightarrow> (Inl err, s)))"

definition networkFirstStrategy ::
  "transport \<Rightarrow> url \<Rightarrow> request \<Rightarrow> sw_state \<Rightarrow> (error + response) \<times> sw_state" where
  "networkFirstStrategy net loc request s =
     (case fetch net request s of
        (Inr networkResponse, s1) \<Rightarrow>
          (case cache_put (static_cache s1) request networkResponse of
             Inr c \<Rightarrow> (Inr networkResponse, s1\<lparr>static_cache := c\<rparr>)
           | Inl err \<Rightarrow> networkFirst_catch err loc request s1)
      | (Inl err, s1) \<Rightarrow> networkFirst_catch err loc request s1)"

text \<open>The \<open>catch\<close> block of \<open>networkFirstWithApiCache\<close> (sw.js 229-263); \<open>now\<close> is
  \<open>Date.now()\<close>. The \<open>put\<close> of this strategy stores a response the worker builds
  itself (status 200, no \<open>Vary\<close> header), which the platform never refuses.\<close>

definition apiCache_catch :: "int \<Rightarrow> request \<Rightarrow> sw_state \<Rightarrow> (error + response) \<times> sw_state" where
  "apiCache_catch now cacheKey s =
     (case api_cache s (request_key cacheKey) of
        Some cacheData \<Rightarrow>
          (let cacheAge = now - cd_timestamp cacheData in
           if cacheAge < MAX_CACHE_AGE then (Inr (json_response (cd_data cacheData)), s)
           else (Inr failure_envelope,
                 s\<lparr>api_cache := (api_cache s)(request_key cacheKey := None)\<rparr>))
      | None \<Rightarrow> (Inr failure_envelope, s))"

definition networkFirstWithApiCache ::
  "transport \<Rightarrow> int \<Rightarrow> request \<Rightarrow> sw_state \<Rightarrow> (error + response) \<times> sw_state" where
  "networkFirstWithApiCache net now request s =
     (let cacheKey = generateCacheKey request in
      case fetch net request s of
        (Inr networkResponse, s1) \<Rightarrow>
          if ok networkResponse then
            (case response_json networkResponse of
               Inr responseData \<Rightarrow>
                 (case get_prop responseData ''success'' of
                    Inr success \<Rightarrow>
                      if success \<noteq> Some (JBool False) then
                        (Inr networkResponse,
                         s1\<lparr>api_cache := (api_cache s1)(request_key cacheKey \<mapsto>
                              \<lparr>cd_data = responseData, cd_timestamp = now,
                               cd_url = url_href (url request)\<rparr>)\<rparr>)
                      else (Inr networkResponse, s1)
                  | Inl err \<Rightarrow> apiCache_catch now cacheKey s1)
             | Inl err \<Rightarrow> apiCache_catch now cacheKey s1)
          else apiCache_catch now cacheKey s1
      | (Inl err, s1) \<Rightarrow> apiCache_catch now cacheKey s1)"

definition offlineFallback_catch :: "url \<Rightarrow> sw_state \<Rightarrow> (error + response) \<times> sw_state" where
  "offlineFallback_catch loc s =
     (case match_offline loc s of
        Some offlineResponse \<Rightarrow> (Inr offlineResponse, s)
      | None \<Rightarrow> (Inr inline_offline_page, s))"

definition networkFirstWithOfflineFallback ::
  "transport \<Rightarrow> url \<Rightarrow> request \<Rightarrow> sw_state \<Rightarrow> (error + response) \<times> sw_state" where
  "networkFirstWithOfflineFallback net loc request s =
     (case fetch net request s of
        (Inr networkResponse, s1) \<Rightarrow>
          (case cache_put (static_cache s1) request networkResponse of
             Inr c \<Rightarrow> (Inr networkResponse, s1\<lparr>static_cache := c\<rparr>)
           | Inl err \<Rightarrow> offlineFallback_catch loc s1)
      | (Inl err, s1) \<Rightarrow> offlineFallback_catch loc s1)"

definition networkOnlyStrategy ::
  "transport \<Rightarrow> request \<Rightarrow> sw_state \<Rightarrow> (error + response) \<times> sw_state" where
  "networkOnlyStrategy net request s =
     (case fetch net request s of
        (Inr networkResponse, s1) \<Rightarrow> (Inr networkResponse, s1)
      | (Inl err, s1) \<Rightarrow> (Inr network_error_response, s1))"

text \<open>The network attempt for a request fails: the fetch rejects, or it resolves with
  a status outside 200-299.\<close>

definition network_attempt_fails :: "transport \<Rightarrow> request \<Rightarrow> sw_state \<Rightarrow> bool" where
  "network_attempt_fails net request s =
     (case net (length (fetch_log s)) request of Inl err \<Rightarrow> True | Inr resp \<Rightarrow> \<not> ok resp)"

subsection \<open>The fetch listener (sw.js 70-119)\<close>

datatype strategy =
  CacheFirst | NetworkFirst | NetworkFirstWithApiCache | NetworkFirstWithOfflineFallback
  | NetworkOnly

text \<open>Which strategy the listener hands to \<open>event.respondWith\<close>; \<open>None\<close> when it returns
  without responding (the request is not intercepted).\<close>

definition route :: "url \<Rightarrow> request \<Rightarrow> strategy option" where
  "route loc request =
     (let u = url request in
      if http_method request \<noteq> ''GET'' \<or> protocol u = ''chrome-extension:'' then None
      else if str_includes (url_href u) ''maps.googleapis.com/maps/api'' then Some NetworkFirst
      else if str_includes (url_href u) ''accounts.google.com/gsi/'' then Some NetworkOnly
      else if str_includes (url_href u) ''script.google.com/macros/s/''
        then Some NetworkFirstWithApiCache
      else if str_includes (url_href u) ''cdnjs.cloudflare.com/ajax/libs/font-awesome''
        then Some CacheFirst
      else if url_origin u = url_origin loc then
        (if accepts_html request then Some NetworkFirstWithOfflineFallback
         else Some CacheFirst)
      else Some NetworkFirst)"

definition respondWith ::
  "strategy \<Rightarrow> transport \<Rightarrow> url \<Rightarrow> int \<Rightarrow> request \<Rightarrow> sw_state
     \<Rightarrow> (error + response) \<times> sw_state" where
  "respondWith st net loc now request s =
     (case st of
        CacheFirst \<Rightarrow> cacheFirstStrategy net loc request s
      | NetworkFirst \<Rightarrow> networkFirstStrategy net loc request s
      | NetworkFirstWithApiCache \<Rightarrow> networkFirstWithApiCache net now request s
      | NetworkFirstWithOfflineFallback \<Rightarrow> networkFirstWithOfflineFallback net loc request s
      | NetworkOnly \<Rightarrow> networkOnlyStrategy net request s)"

definition fetch_listener ::
  "transport \<Rightarrow> url \<Rightarrow> int \<Rightarrow> request \<Rightarrow> sw_state
     \<Rightarrow> ((error + response) \<times> sw_state) option" where
  "fetch_listener net loc now request s =
     (case route loc request of
        None \<Rightarrow> None
      | Some st \<Rightarrow> Some (respondWith st net loc now request s))"






subsection \<open>The install listener (sw.js 26-44)\<close>

text \<open>
  \<open>cache.addAll(requests)\<close> of the platform: every request is fetched; if a fetch
  rejects, answers with a status outside 200-299 or answers with a response that
  \<open>put\<close> refuses (status 206, \<open>Vary: *\<close>), the promise rejects with a TypeError and
  nothing is stored; otherwise every response is stored under its request.
\<close>

fun fetch_each ::
  "transport \<Rightarrow> request list \<Rightarrow> sw_state \<Rightarrow> (error + response) list \<times> sw_state" where
  "fetch_each net [] s = ([], s)"
| "fetch_each net (r # rs) s =
     (case fetch net r s of
        (res, s1) \<Rightarrow> (case fetch_each net rs s1 of (ress, s2) \<Rightarrow> (res # ress, s2)))"

definition fetched_ok :: "error + response \<Rightarrow> bool" where
  "fetched_ok res =
     (case res of Inl err \<Rightarrow> False | Inr resp \<Rightarrow> ok resp \<and> \<not> put_rejects resp)"

fun put_all ::
  "request list \<Rightarrow> (error + response) list \<Rightarrow> (string \<rightharpoonup> response) \<Rightarrow> (string \<rightharpoonup> response)" where
  "put_all (r # rs) (Inr resp # ress) c = put_all rs ress (c(request_key r \<mapsto> resp))"
| "put_all rs ress c = c"

definition addAll :: "transport \<Rightarrow> request list \<Rightarrow> sw_state \<Rightarrow> (error + unit) \<times> sw_state" where
  "addAll net requests s =
     (case fetch_each net requests s of
        (results, s1) \<Rightarrow>
          if list_all fetched_ok results
          then (Inr (), s1\<lparr>static_cache := put_all requests results (static_cache s1)\<rparr>)
          else (Inl TypeError, s1))"

text \<open>
  What the listener leaves behind: how the promise handed to \<open>event.waitUntil\<close>
  settles (the browser installs the worker when it fulfils and discards the worker when
  it rejects), whether \<open>self.skipWaiting()\<close> was called, and the console lines.
\<close>

record install_report =
  waitUntil :: "error + unit"
  skipWaiting :: bool
  console :: "string list"

definition install_listener :: "transport \<Rightarrow> url \<Rightarrow> sw_state \<Rightarrow> install_report \<times> sw_state" where
  "install_listener net loc s =
     (case addAll net (PRECACHE_URLS loc) s of
        (Inr u, s1) \<Rightarrow>
          (\<lparr>waitUntil = Inr (), skipWaiting = True,
            console = [''Service Worker: Installing...'', ''Service Worker: Caching app shell'',
                       ''Service Worker: Installation complete'']\<rparr>, s1)
      | (Inl err, s1) \<Rightarrow>
          (\<lparr>waitUntil = Inr (), skipWaiting = False,
            console = [''Service Worker: Installing...'', ''Service Worker: Caching app shell'',
                       ''Service Worker: Installation failed:'']\<rparr>, s1))"

subsection \<open>Background sync (sw.js 388-472)\<close>

text \<open>
  A record of the object store \<open>pending-requests\<close>: the fields of the request to
  replay, the key \<open>id\<close> and the \<open>timestamp\<close> the index is built on; \<open>None\<close> is a
  record that has no \<open>timestamp\<close> (or one that is not a valid key). The store is the list
  of its records and its operations are total.
\<close>

record pending_request = request +
  pr_id :: nat
  pr_timestamp :: "int option"

text \<open>\<open>index.getAll()\<close> on the index \<open>timestamp\<close>: the records that have a timestamp,
  in ascending order of the timestamp, records of one timestamp in ascending order of the
  key. A record without a timestamp is not in the index.\<close>

definition getAllPendingRequests :: "pending_request list \<Rightarrow> pending_request list" where
  "getAllPendingRequests db =
     sort_key (\<lambda>e. (pr_timestamp e, pr_id e)) (filter (\<lambda>e. pr_timestamp e \<noteq> None) db)"

definition deletePendingRequest :: "pending_request list \<Rightarrow> nat \<Rightarrow> pending_request list" where
  "deletePendingRequest db i = filter (\<lambda>e. pr_id e \<noteq> i) db"

text \<open>\<open>fetch(request.url, {method, headers, body})\<close>: the arguments of the call.\<close>

definition replay_request :: "pending_request \<Rightarrow> request" where
  "replay_request e = \<lparr>http_method = http_method e, url = url e, headers = headers e, body = body e\<rparr>"

text \<open>
  \<open>fetch(url, init)\<close> builds the request from its arguments first: for the method GET
  or HEAD (in any letter case) with a body that is not \<open>null\<close> it rejects with a
  TypeError and nothing is sent. The call is recorded in \<open>fetch_log\<close> either way.
\<close>

definition body_forbidden :: "request \<Rightarrow> bool" where
  "body_forbidden r =
     ((map to_lower (http_method r) = ''get'' \<or> map to_lower (http_method r) = ''head'')
      \<and> body r \<noteq> None)"

definition fetch_init :: "transport \<Rightarrow> request \<Rightarrow> sw_state \<Rightarrow> (error + response) \<times> sw_state" where
  "fetch_init net r s =
     (if body_forbidden r then (Inl TypeError, s\<lparr>fetch_log := fetch_log s @ [r]\<rparr>)
      else fetch net r s)"

text \<open>The \<open>for\<close> loop of \<open>syncDeliveryRequests\<close> over the records read at the start;
  the inner \<open>catch\<close> only logs, so a rejected call goes on to the next record.\<close>

fun replay_loop ::
  "transport \<Rightarrow> pending_request list \<Rightarrow> pending_request list \<Rightarrow> sw_state
     \<Rightarrow> pending_request list \<times> sw_state" where
  "replay_loop net [] db s = (db, s)"
| "replay_loop net (request # rest) db s =
     (case fetch_init net (replay_request request) s of
        (Inr resp, s1) \<Rightarrow>
          if ok resp then replay_loop net rest (deletePendingRequest db (pr_id request)) s1
          else replay_loop net rest db s1
      | (Inl err, s1) \<Rightarrow> replay_loop net rest db s1)"

definition syncDeliveryRequests ::
  "transport \<Rightarrow> pending_request list \<Rightarrow> sw_state \<Rightarrow> pending_request list \<times> sw_state" where
  "syncDeliveryRequests net db s = replay_loop net (getAllPendingRequests db) db s"

text \<open>The replay of record \<open>e\<close>, made as call number \<open>n\<close>, came back with a 2xx
  status; and the keys of the records of a list whose replays did, when the first is
  made as call number \<open>n\<close>.\<close>

definition replayed_ok :: "transport \<Rightarrow> nat \<Rightarrow> pending_request \<Rightarrow> bool" where
  "replayed_ok net n e =
     (\<not> body_forbidden (replay_request e)
      \<and> (case net n (replay_request e) of Inl err \<Rightarrow> False | Inr resp \<Rightarrow> ok resp))"

fun synced_ids :: "transport \<Rightarrow> nat \<Rightarrow> pending_request list \<Rightarrow> nat list" where
  "synced_ids net n [] = []"
| "synced_ids net n (e # es) =
     (if replayed_ok net n e then pr_id e # synced_ids net (Suc n) es
      else synced_ids net (Suc n) es)"

subsection \<open>The push listener (sw.js 474-506)\<close>

text \<open>
  \<open>event.data\<close> is \<open>null\<close> (\<open>None\<close>) or a message whose \<open>json()\<close> either throws a
  SyntaxError or gives the decoded value. The listener returns the notification it
  shows, \<open>None\<close> when it returns without showing one, or the error it throws.
\<close>

record notification =
  n_title :: json
  n_body :: json
  n_icon :: string
  n_badge :: string
  n_vibrate :: "nat list"
  n_data_url :: json
  n_data_timestamp :: int
  n_actions :: "(string \<times> string) list"

definition push_listener :: "int \<Rightarrow> (error + json) option \<Rightarrow> error + notification option" where
  "push_listener now event_data =
     (case event_data of
        None \<Rightarrow> Inr None
      | Some message \<Rightarrow>
          (case message of
             Inl err \<Rightarrow> Inl err
           | Inr data \<Rightarrow>
               (case get_prop data ''body'' of
                  Inl err \<Rightarrow> Inl err
                | Inr b \<Rightarrow>
                    (case get_prop data ''url'' of
                       Inl err \<Rightarrow> Inl err
                     | Inr u \<Rightarrow>
                         (case get_prop data ''title'' of
                            Inl err \<Rightarrow> Inl err
                          | Inr t \<Rightarrow>
                              Inr (Some
                                \<lparr>n_title = js_or t (JStr ''DSOG Delivery''),
                                 n_body = js_or b (JStr ''New delivery update''),
                                 n_icon = ''https://i.postimg.cc/kMZ1jTww/Untitled-design-4-removebg-preview.png'',
                                 n_badge = ''https://i.postimg.cc/kMZ1jTww/Untitled-design-4-removebg-preview.png'',
                                 n_vibrate = [100, 50, 100],
                                 n_data_url = js_or u (JStr ''/delivery/''),
                                 n_data_timestamp = now,
                                 n_actions = [(''view'', ''View Details''), (''close'', ''Close'')]\<rparr>))))))"

subsection \<open>Sample inputs\<close>

definition sample_url :: "string option \<Rightarrow> url" where
  "sample_url q =
     \<lparr>protocol = ''https:'', host = ''script.google.com'', pathname = ''/macros/s/XYZ'',
      query = q, fragment = None\<rparr>"

definition sample_request :: "string option \<Rightarrow> request" where
  "sample_request q = \<lparr>http_method = ''GET'', url = sample_url q, headers = [], body = None\<rparr>"

definition sample_loc :: url where
  "sample_loc =
     \<lparr>protocol = ''https:'', host = ''dsog.example'', pathname = ''/delivery/sw.js'',
      query = None, fragment = None\<rparr>"

definition asset_request :: "string option \<Rightarrow> request" where
  "asset_request q =
     \<lparr>http_method = ''GET'',
      url = \<lparr>protocol = ''https:'', host = ''dsog.example'', pathname = ''/delivery/app.js'',
             query = q, fragment = None\<rparr>,
      headers = [], body = None\<rparr>"

definition page :: "nat \<Rightarrow> string \<Rightarrow> response" where
  "page st text =
     \<lparr>status = st, statusText = [], response_headers = [], response_body = Undecodable text\<rparr>"

definition empty_state :: sw_state where
  "empty_state = \<lparr>static_cache = Map.empty, api_cache = Map.empty, fetch_log = []\<rparr>"

text \<open>A network that is down, one that answers every request with the same response,
  and one that is down for call number \<open>k\<close> only.\<close>

definition offline_net :: transport where
  "offline_net = (\<lambda>n r. Inl NetworkError)"

definition answering :: "response \<Rightarrow> transport" where
  "answering resp = (\<lambda>n r. Inr resp)"

definition fails_at :: "nat \<Rightarrow> transport" where
  "fails_at k = (\<lambda>n r. if n = k then Inl NetworkError else Inr (page 200 ''ok''))"

definition sample_pending :: "nat \<Rightarrow> int \<Rightarrow> pending_request" where
  "sample_pending i t =
     \<lparr>http_method = ''POST'', url = sample_url None,
      headers = [(''Content-Type'', ''application/json'')],
      body = Some ''order'', pr_id = i, pr_timestamp = Some t\<rparr>"

definition cached_asset_state :: sw_state where
  "cached_asset_state =
     empty_state\<lparr>static_cache :=
       [''https://dsog.example/delivery/app.js?cacheBuster=1'' \<mapsto> page 200 ''app'']\<rparr>"

definition cached_api_state :: sw_state where
  "cached_api_state =
     empty_state\<lparr>api_cache :=
       [''https://script.google.com/macros/s/XYZ?a=1'' \<mapsto>
          \<lparr>cd_data = JStr ''payload'', cd_timestamp = 0,
           cd_url = ''https://script.google.com/macros/s/XYZ?a=1&cacheBuster=123''\<rparr>]\<rparr>"

definition sample_queue :: "pending_request list" where
  "sample_queue = [sample_pending 1 30, sample_pending 2 10, sample_pending 3 20]"

section \<open>Properties\<close>

subsection \<open>The cache key normalizer\<close>

lemma hex_val_hex_digit: "n < 16 \<Longrightarrow> hex_val (hex_digit n) = Some n"
  by (auto simp: hex_val_def hex_digit_def Let_def)

lemma hex_digit_unreserved: "n < 16 \<Longrightarrow> unreserved (hex_digit n)"
  by (auto simp: unreserved_def hex_digit_def Let_def)

lemma of_char_lt_256: "(of_char c :: nat) < 256"
  by (cases c) simp

lemma of_char_div16: "(of_char c :: nat) div 16 < 16"
  using of_char_lt_256 [of c] by (simp add: less_mult_imp_div_less)

lemma encode_byte_chars: "x \<in> set (encode_byte c) \<Longrightarrow> urlencoded_char x"
  using of_char_div16 [of c]
  by (auto simp: encode_byte_def urlencoded_char_def hex_digit_unreserved split: if_splits)

lemma form_encode_chars: "x \<in> set (form_encode s) \<Longrightarrow> urlencoded_char x"
  by (auto simp: form_encode_def dest: encode_byte_chars)

lemma urlencoded_char_not_sep:
  "urlencoded_char x \<Longrightarrow> x \<noteq> CHR ''&'' \<and> x \<noteq> CHR ''='' \<and> x \<noteq> CHR ''?''"
  by (auto simp: urlencoded_char_def unreserved_def Let_def)

lemma hex_digit_not_plus: "n < 16 \<Longrightarrow> hex_digit n \<noteq> CHR ''+''"
  using hex_digit_unreserved [of n] by (auto simp: unreserved_def Let_def)

lemma form_decode_encode_byte:
  "form_decode (encode_byte c @ s) = c # form_decode s"
proof -
  have d: "(of_char c :: nat) div 16 < 16" by (rule of_char_div16)
  have m: "(of_char c :: nat) mod 16 < 16" by simp
  have r: "char_of ((of_char c :: nat) div 16 * 16 + of_char c mod 16) = c" by simp
  show ?thesis
    using d m r
    by (auto simp: form_decode_def encode_byte_def hex_val_hex_digit hex_digit_not_plus
        unreserved_def Let_def)
qed

lemma form_decode_encode: "form_decode (form_encode s) = s"
proof (induction s)
  case Nil
  then show ?case by (simp add: form_decode_def form_encode_def)
next
  case (Cons c s)
  have "form_encode (c # s) = encode_byte c @ form_encode s"
    by (simp add: form_encode_def)
  then show ?case using Cons by (simp add: form_decode_encode_byte)
qed


lemma split_on_no_sep: "d \<notin> set s \<Longrightarrow> split_on d s = [s]"
  by (induction s) auto

lemma split_on_append:
  "d \<notin> set x \<Longrightarrow> split_on d (x @ d # rest) = x # split_on d rest"
  by (induction x) auto

lemma split_on_join:
  "xs \<noteq> [] \<Longrightarrow> \<forall>x\<in>set xs. d \<notin> set x \<Longrightarrow> split_on d (join [d] xs) = xs"
proof (induction "[d]" xs rule: join.induct)
  case 1
  then show ?case by simp
next
  case (2 x)
  then show ?case by (simp add: split_on_no_sep)
next
  case (3 x y ys)
  then show ?case by (simp add: split_on_append)
qed

lemma params_toString_encode_pair: "params_toString ps = join ''&'' (map encode_pair ps)"
  by (simp add: params_toString_def)

lemma encode_pair_chars:
  "x \<in> set (encode_pair p) \<Longrightarrow> urlencoded_char x \<or> x = CHR ''=''"
  by (auto simp: encode_pair_def dest: form_encode_chars)

lemma encode_pair_no_amp: "CHR ''&'' \<notin> set (encode_pair p)"
  using encode_pair_chars [of "CHR ''&''" p] urlencoded_char_not_sep [of "CHR ''&''"] by auto

lemma encode_pair_nonempty: "encode_pair p \<noteq> []"
  by (simp add: encode_pair_def)

lemma form_encode_no_eq: "CHR ''='' \<notin> set (form_encode s)"
  using form_encode_chars [of "CHR ''=''" s] urlencoded_char_not_sep [of "CHR ''=''"] by auto

lemma parse_pair_encode_pair: "parse_pair (encode_pair p) = p"
proof -
  have t: "takeWhile (\<lambda>c. c \<noteq> CHR ''='') (encode_pair p) = form_encode (fst p)"
    using form_encode_no_eq [of "fst p"]
    by (simp add: encode_pair_def takeWhile_append)
  have d: "dropWhile (\<lambda>c. c \<noteq> CHR ''='') (encode_pair p) = ''='' @ form_encode (snd p)"
    using form_encode_no_eq [of "fst p"]
    by (simp add: encode_pair_def dropWhile_append)
  show ?thesis by (simp add: parse_pair_def t d form_decode_encode)
qed

lemma parse_params_toString:
  "map parse_pair (filter (\<lambda>piece. piece \<noteq> []) (split_on (CHR ''&'') (params_toString ps))) = ps"
proof (cases ps)
  case Nil
  then show ?thesis by (simp add: params_toString_def)
next
  case (Cons p qs)
  have "split_on (CHR ''&'') (join ''&'' (map encode_pair ps)) = map encode_pair ps"
    using Cons by (intro split_on_join) (auto simp: encode_pair_no_amp)
  then show ?thesis
    by (simp add: params_toString_encode_pair filter_map o_def encode_pair_nonempty
        parse_pair_encode_pair)
qed

lemma set_join: "x \<in> set (join d xs) \<Longrightarrow> x \<in> set d \<or> (\<exists>y\<in>set xs. x \<in> set y)"
  by (induction d xs rule: join.induct) auto

lemma params_toString_chars:
  "x \<in> set (params_toString ps) \<Longrightarrow> urlencoded_char x \<or> x = CHR ''='' \<or> x = CHR ''&''"
  unfolding params_toString_def
  by (drule set_join) (auto dest: encode_pair_chars)

lemma params_toString_no_qmark: "params_toString ps \<noteq> CHR ''?'' # rest"
proof
  assume "params_toString ps = CHR ''?'' # rest"
  then have "CHR ''?'' \<in> set (params_toString ps)" by simp
  then show False
    using params_toString_chars [of "CHR ''?''" ps] urlencoded_char_not_sep [of "CHR ''?''"]
    by simp
qed

lemma URLSearchParams_toString: "URLSearchParams (params_toString ps) = ps"
proof (cases "params_toString ps")
  case Nil
  then show ?thesis
    using parse_params_toString [of ps] by (simp add: URLSearchParams_def)
next
  case (Cons c cs)
  then have "c \<noteq> CHR ''?''" using params_toString_no_qmark [of ps cs] by auto
  then show ?thesis
    using parse_params_toString [of ps] Cons by (simp add: URLSearchParams_def)
qed

lemma URLSearchParams_qmark_toString: "URLSearchParams (CHR ''?'' # params_toString ps) = ps"
  by (simp add: URLSearchParams_def parse_params_toString)


lemma url_search_set_search:
  "url_search (url_set_search (params_toString ps) u) =
     (if params_toString ps = [] then [] else CHR ''?'' # params_toString ps)"
proof (cases "params_toString ps")
  case Nil
  then show ?thesis by (simp add: url_search_def url_set_search_def)
next
  case (Cons c cs)
  then have "c \<noteq> CHR ''?''" using params_toString_no_qmark [of ps cs] by auto
  with Cons show ?thesis by (simp add: url_search_def url_set_search_def)
qed

lemma params_of_set_search:
  "URLSearchParams (url_search (url_set_search (params_toString ps) u)) = ps"
proof (cases "params_toString ps = []")
  case True
  have "URLSearchParams [] = ps" using True URLSearchParams_toString [of ps] by simp
  moreover have "url_search (url_set_search (params_toString ps) u) = []"
    using True url_search_set_search [of ps u] by simp
  ultimately show ?thesis by simp
next
  case False
  then show ?thesis by (simp add: url_search_set_search URLSearchParams_qmark_toString)
qed

lemma generateCacheKey_alt:
  "generateCacheKey r =
     r\<lparr>url := url_set_search
        (params_toString (strip_volatile (URLSearchParams (url_search (url r))))) (url r)\<rparr>"
  by (simp add: generateCacheKey_def strip_volatile_def Let_def)

lemma params_of_generateCacheKey:
  "URLSearchParams (url_search (url (generateCacheKey r))) =
     strip_volatile (URLSearchParams (url_search (url r)))"
  by (simp add: generateCacheKey_alt params_of_set_search)

lemma strip_volatile_idem: "strip_volatile (strip_volatile ps) = strip_volatile ps"
  by (induction ps) (auto simp: strip_volatile_def params_delete_def)

lemma url_set_search_twice: "url_set_search v (url_set_search v u) = url_set_search v u"
  by (simp add: url_set_search_def)

lemma generateCacheKey_idem: "generateCacheKey (generateCacheKey r) = generateCacheKey r"
proof -
  let ?v = "params_toString (strip_volatile (URLSearchParams (url_search (url r))))"
  have k: "generateCacheKey r = r\<lparr>url := url_set_search ?v (url r)\<rparr>"
    by (rule generateCacheKey_alt)
  have "URLSearchParams (url_search (url (generateCacheKey r)))
          = strip_volatile (URLSearchParams (url_search (url r)))"
    by (rule params_of_generateCacheKey)
  then have "generateCacheKey (generateCacheKey r) =
     (generateCacheKey r)\<lparr>url := url_set_search ?v (url (generateCacheKey r))\<rparr>"
    by (simp add: generateCacheKey_alt [of "generateCacheKey r"] strip_volatile_idem)
  also have "\<dots> = generateCacheKey r"
    by (simp add: k url_set_search_twice)
  finally show ?thesis .
qed

lemma url_set_search_cong:
  "protocol u1 = protocol u2 \<Longrightarrow> host u1 = host u2 \<Longrightarrow> pathname u1 = pathname u2 \<Longrightarrow>
   fragment u1 = fragment u2 \<Longrightarrow> url_set_search v (u1::url) = url_set_search v u2"
  by (cases u1; cases u2) (simp add: url_set_search_def)

lemma generateCacheKey_differ:
  assumes "differ_only_in_stripped r1 r2"
  shows "generateCacheKey r1 = generateCacheKey r2"
proof -
  let ?v = "params_toString (strip_volatile (URLSearchParams (url_search (url r1))))"
  have v: "params_toString (strip_volatile (URLSearchParams (url_search (url r2)))) = ?v"
    using assms by (simp add: differ_only_in_stripped_def)
  have u: "url_set_search ?v (url r1) = url_set_search ?v (url r2)"
    using assms by (intro url_set_search_cong) (simp_all add: differ_only_in_stripped_def)
  have "r1\<lparr>url := url_set_search ?v (url r1)\<rparr> = r2\<lparr>url := url_set_search ?v (url r1)\<rparr>"
    using assms by (cases r1; cases r2) (simp add: differ_only_in_stripped_def)
  then show ?thesis by (simp add: generateCacheKey_alt v u)
qed

lemma params_delete_absent: "name \<notin> fst ` set ps \<Longrightarrow> params_delete name ps = ps"
  by (induction ps) (auto simp: params_delete_def)

text \<open>
  C8. The normalizer is idempotent; two requests that differ only in the stripped
  parameters (\<open>timestamp\<close>, \<open>_\<close>, \<open>cacheBuster\<close>) get the same key; the parameters of
  the key are those of the request without the stripped ones, so a request that has none
  of them keeps its parameter list; deleting a name that is absent changes nothing. The
  function is total: it has no error result.
\<close>

theorem generateCacheKey_normalizer:
  "generateCacheKey (generateCacheKey r) = generateCacheKey r
   \<and> (differ_only_in_stripped r1 r2 \<longrightarrow> generateCacheKey r1 = generateCacheKey r2)
   \<and> URLSearchParams (url_search (url (generateCacheKey r)))
       = strip_volatile (URLSearchParams (url_search (url r)))
   \<and> (name \<notin> fst ` set ps \<longrightarrow> params_delete name ps = ps)"
  using generateCacheKey_idem generateCacheKey_differ params_of_generateCacheKey
    params_delete_absent
  by blast

theorem generateCacheKey_normalizer_witness:
  "differ_only_in_stripped (sample_request (Some ''a=1&cacheBuster=123''))
     (sample_request (Some ''_=7&a=1&timestamp=99''))
   \<and> generateCacheKey (sample_request (Some ''a=1&cacheBuster=123''))
       = generateCacheKey (sample_request (Some ''_=7&a=1&timestamp=99''))
   \<and> generateCacheKey (generateCacheKey (sample_request (Some ''a=1&cacheBuster=123'')))
       = generateCacheKey (sample_request (Some ''a=1&cacheBuster=123''))
   \<and> ''timestamp'' \<notin> fst ` set [(''a'', ''1'')]
   \<and> params_delete ''timestamp'' [(''a'', ''1'')] = [(''a'', ''1'')]"
proof -
  have h1: "differ_only_in_stripped (sample_request (Some ''a=1&cacheBuster=123''))
     (sample_request (Some ''_=7&a=1&timestamp=99''))"
    by code_simp
  have h2: "''timestamp'' \<notin> fst ` set [(''a'', ''1'')]" by simp
  show ?thesis
    using h1 h2
      generateCacheKey_normalizer [where r = "sample_request (Some ''a=1&cacheBuster=123'')"
        and ?r1.0 = "sample_request (Some ''a=1&cacheBuster=123'')"
        and ?r2.0 = "sample_request (Some ''_=7&a=1&timestamp=99'')"
        and name = "''timestamp''" and ps = "[(''a'', ''1'')]"]
    by blast
qed

subsection \<open>Facts about the sample inputs\<close>

lemma asset_key:
  "request_key (asset_request (Some ''cacheBuster=1''))
     = ''https://dsog.example/delivery/app.js?cacheBuster=1''"
  "request_key (asset_request (Some ''cacheBuster=2''))
     = ''https://dsog.example/delivery/app.js?cacheBuster=2''"
  by (simp_all add: request_key_def asset_request_def url_href_def)

lemma asset_normalized:
  "generateCacheKey (asset_request (Some ''cacheBuster=1''))
     = generateCacheKey (asset_request (Some ''cacheBuster=2''))"
  by code_simp

lemma sample_key:
  "request_key (generateCacheKey (sample_request (Some ''a=1&cacheBuster=123'')))
     = ''https://script.google.com/macros/s/XYZ?a=1''"
  by code_simp

lemma asset_not_html: "\<not> accepts_html (asset_request q)"
  by (simp add: accepts_html_def asset_request_def headers_get_def)

lemma offline_fails: "network_attempt_fails offline_net r s"
  by (simp add: network_attempt_fails_def offline_net_def)

lemma cached_api_lookup:
  "api_cache cached_api_state
     (request_key (generateCacheKey (sample_request (Some ''a=1&cacheBuster=123''))))
   = Some \<lparr>cd_data = JStr ''payload'', cd_timestamp = 0,
           cd_url = ''https://script.google.com/macros/s/XYZ?a=1&cacheBuster=123''\<rparr>"
  by (simp add: sample_key cached_api_state_def empty_state_def)

lemma page_plain: "\<not> vary_star (page st t)"
  by (simp add: vary_star_def page_def headers_get_def)

lemma sample_queue_sorted:
  "getAllPendingRequests sample_queue = [sample_pending 2 10, sample_pending 3 20, sample_pending 1 30]"
  by code_simp

subsection \<open>The TTL-bounded API cache\<close>

lemma apiCache_on_failure:
  "network_attempt_fails net request s \<Longrightarrow>
   networkFirstWithApiCache net now request s =
     apiCache_catch now (generateCacheKey request) (s\<lparr>fetch_log := fetch_log s @ [request]\<rparr>)"
  by (auto simp: network_attempt_fails_def networkFirstWithApiCache_def fetch_def Let_def
      split: sum.splits)

lemma apiCache_catch_fst:
  "api_cache s = api_cache s' \<Longrightarrow> fst (apiCache_catch now k s) = fst (apiCache_catch now k s')"
  by (simp add: apiCache_catch_def Let_def split: option.splits)

text \<open>
  C1. When the network attempt of \<open>networkFirstWithApiCache\<close> fails (the fetch rejects
  or resolves with a status outside 200-299) and a record is stored under the normalized
  key: if \<open>now - timestamp\<close> is below one hour (3600000 ms) the stored \<open>data\<close> is
  returned as a JSON response; if it is one hour or more the record is deleted from the
  API namespace and the failure envelope is returned; with no record the failure
  envelope is returned and the namespace is left as it was. The failure envelope has
  status 408 and the body \<open>{success: false, error, message, data: []}\<close>.
\<close>

theorem apiCache_ttl:
  "(network_attempt_fails net request s \<longrightarrow>
     (api_cache s (request_key (generateCacheKey request)) = Some cacheData
        \<and> now - cd_timestamp cacheData < 3600000 \<longrightarrow>
      networkFirstWithApiCache net now request s =
        (Inr (json_response (cd_data cacheData)), s\<lparr>fetch_log := fetch_log s @ [request]\<rparr>))
   \<and> (api_cache s (request_key (generateCacheKey request)) = Some cacheData
        \<and> 3600000 \<le> now - cd_timestamp cacheData \<longrightarrow>
      networkFirstWithApiCache net now request s =
        (Inr failure_envelope,
         s\<lparr>fetch_log := fetch_log s @ [request],
           api_cache := (api_cache s)(request_key (generateCacheKey request) := None)\<rparr>))
   \<and> (api_cache s (request_key (generateCacheKey request)) = None \<longrightarrow>
      networkFirstWithApiCache net now request s =
        (Inr failure_envelope, s\<lparr>fetch_log := fetch_log s @ [request]\<rparr>)))
   \<and> response_json (json_response d) = Inr d \<and> ok (json_response d)
   \<and> status failure_envelope = 408
   \<and> response_json failure_envelope = Inr (JObj
        [(''success'', JBool False),
         (''error'', JStr ''Network error''),
         (''message'', JStr ''Unable to connect. Please check your internet connection.''),
         (''data'', JArr [])])"
proof -
  have shape: "response_json (json_response d) = Inr d \<and> ok (json_response d)
   \<and> status failure_envelope = 408
   \<and> response_json failure_envelope = Inr (JObj
        [(''success'', JBool False),
         (''error'', JStr ''Network error''),
         (''message'', JStr ''Unable to connect. Please check your internet connection.''),
         (''data'', JArr [])])"
    by (simp add: failure_envelope_def json_response_def ok_def response_json_def)
  have cases: "network_attempt_fails net request s \<longrightarrow>
     (api_cache s (request_key (generateCacheKey request)) = Some cacheData
        \<and> now - cd_timestamp cacheData < 3600000 \<longrightarrow>
      networkFirstWithApiCache net now request s =
        (Inr (json_response (cd_data cacheData)), s\<lparr>fetch_log := fetch_log s @ [request]\<rparr>))
   \<and> (api_cache s (request_key (generateCacheKey request)) = Some cacheData
        \<and> 3600000 \<le> now - cd_timestamp cacheData \<longrightarrow>
      networkFirstWithApiCache net now request s =
        (Inr failure_envelope,
         s\<lparr>fetch_log := fetch_log s @ [request],
           api_cache := (api_cache s)(request_key (generateCacheKey request) := None)\<rparr>))
   \<and> (api_cache s (request_key (generateCacheKey request)) = None \<longrightarrow>
      networkFirstWithApiCache net now request s =
        (Inr failure_envelope, s\<lparr>fetch_log := fetch_log s @ [request]\<rparr>))"
    by (auto simp: apiCache_on_failure apiCache_catch_def MAX_CACHE_AGE_def Let_def)
  show ?thesis using cases shape by (rule conjI)
qed

theorem apiCache_ttl_witness:
  "network_attempt_fails offline_net (sample_request (Some ''a=1&cacheBuster=123'')) cached_api_state
   \<and> fst (networkFirstWithApiCache offline_net 3000000
          (sample_request (Some ''a=1&cacheBuster=123'')) cached_api_state)
       = Inr (json_response (JStr ''payload''))
   \<and> fst (networkFirstWithApiCache offline_net 4200000
          (sample_request (Some ''a=1&cacheBuster=123'')) cached_api_state)
       = Inr failure_envelope
   \<and> api_cache (snd (networkFirstWithApiCache offline_net 4200000
          (sample_request (Some ''a=1&cacheBuster=123'')) cached_api_state))
        ''https://script.google.com/macros/s/XYZ?a=1'' = None
   \<and> fst (networkFirstWithApiCache offline_net 4200000
          (sample_request (Some ''a=1&cacheBuster=123'')) empty_state)
       = Inr failure_envelope"
proof -
  let ?r = "sample_request (Some ''a=1&cacheBuster=123'')"
  let ?d = "\<lparr>cd_data = JStr ''payload'', cd_timestamp = 0,
           cd_url = ''https://script.google.com/macros/s/XYZ?a=1&cacheBuster=123''\<rparr>"
  have f: "network_attempt_fails offline_net ?r cached_api_state"
       "network_attempt_fails offline_net ?r empty_state"
    by (rule offline_fails)+
  have n: "api_cache empty_state (request_key (generateCacheKey ?r)) = None"
    by (simp add: empty_state_def)
  show ?thesis
    using f n cached_api_lookup
      apiCache_ttl [of offline_net ?r cached_api_state ?d 3000000]
      apiCache_ttl [of offline_net ?r cached_api_state ?d 4200000]
      apiCache_ttl [of offline_net ?r empty_state ?d 4200000]
    by (simp add: sample_key)
qed

subsection \<open>Cache-First\<close>

text \<open>
  C7. If the static namespace has an entry for the request, \<open>cacheFirstStrategy\<close>
  returns it and leaves the whole state as it was: no call is added to \<open>fetch_log\<close>
  (the transport is not invoked) and no cache changes. The static namespace changes only
  on a miss whose fetch resolved with an ok response, and then by that one entry.
\<close>

theorem cacheFirst_hit:
  "(static_cache s (request_key request) = Some cached \<longrightarrow>
      cacheFirstStrategy net loc request s = (Inr cached, s))
   \<and> (static_cache (snd (cacheFirstStrategy net loc request s)) \<noteq> static_cache s \<longrightarrow>
        static_cache s (request_key request) = None
        \<and> (\<exists>resp. net (length (fetch_log s)) request = Inr resp \<and> ok resp
             \<and> static_cache (snd (cacheFirstStrategy net loc request s))
                 = (static_cache s)(request_key request \<mapsto> resp)))"
  by (auto simp: cacheFirstStrategy_def cacheFirst_catch_def cache_put_def fetch_def
      split: option.splits sum.splits if_splits)

theorem cacheFirst_hit_witness:
  "static_cache cached_asset_state (request_key (asset_request (Some ''cacheBuster=1'')))
     = Some (page 200 ''app'')
   \<and> cacheFirstStrategy (answering (page 200 ''new'')) sample_loc
        (asset_request (Some ''cacheBuster=1'')) cached_asset_state
       = (Inr (page 200 ''app''), cached_asset_state)"
proof -
  have h1: "static_cache cached_asset_state (request_key (asset_request (Some ''cacheBuster=1'')))
     = Some (page 200 ''app'')"
    by (simp add: asset_key cached_asset_state_def empty_state_def)
  show ?thesis
    using h1 cacheFirst_hit [of cached_asset_state "asset_request (Some ''cacheBuster=1'')"
        "page 200 ''app''" "answering (page 200 ''new'')" sample_loc]
    by simp
qed

lemma cacheFirst_catch_plain:
  "\<not> accepts_html request \<Longrightarrow> cacheFirst_catch loc request s = (Inr network_error_response, s)"
  by (simp add: cacheFirst_catch_def)

text \<open>
  C6, as the claim states it, fails: \<open>cacheFirstStrategy\<close> looks the request up under
  its own URL. Two requests with the same normalized key, one of them cached: the other
  one misses, goes to the network and gets the error response.
\<close>

theorem cacheFirst_raw_key_counterexample:
  "generateCacheKey (asset_request (Some ''cacheBuster=1''))
     = generateCacheKey (asset_request (Some ''cacheBuster=2''))
   \<and> fst (cacheFirstStrategy offline_net sample_loc (asset_request (Some ''cacheBuster=1''))
          cached_asset_state) = Inr (page 200 ''app'')
   \<and> fst (cacheFirstStrategy offline_net sample_loc (asset_request (Some ''cacheBuster=2''))
          cached_asset_state) = Inr network_error_response
   \<and> fetch_log (snd (cacheFirstStrategy offline_net sample_loc
          (asset_request (Some ''cacheBuster=2'')) cached_asset_state))
       = [asset_request (Some ''cacheBuster=2'')]"
  by (simp add: asset_normalized cacheFirstStrategy_def asset_key cached_asset_state_def
      empty_state_def fetch_def offline_net_def asset_not_html cacheFirst_catch_plain)

text \<open>
  C6, amended. \<open>cacheFirstStrategy\<close> performs its static-namespace lookup under the
  URL of the request itself (\<open>request_key\<close>, the fragment dropped), not under the
  normalized key: an entry under that URL is returned, and without one the network is
  called. The normalized key is used by \<open>networkFirstWithApiCache\<close>: two requests that
  differ only in the stripped parameters have the same key there and, when the network
  attempt of both fails, get the same answer from the API namespace.
\<close>

theorem cacheFirst_uses_request_url:
  "(static_cache s (request_key request) = Some cached \<longrightarrow>
      fst (cacheFirstStrategy net loc request s) = Inr cached)
   \<and> (static_cache s (request_key request) = None \<longrightarrow>
        fetch_log (snd (cacheFirstStrategy net loc request s)) = fetch_log s @ [request])
   \<and> (differ_only_in_stripped r1 r2 \<and> network_attempt_fails net r1 s
        \<and> network_attempt_fails net r2 s \<longrightarrow>
        request_key (generateCacheKey r1) = request_key (generateCacheKey r2)
        \<and> fst (networkFirstWithApiCache net now r1 s)
            = fst (networkFirstWithApiCache net now r2 s))"
proof (intro conjI impI)
  assume "static_cache s (request_key request) = Some cached"
  then show "fst (cacheFirstStrategy net loc request s) = Inr cached"
    by (simp add: cacheFirstStrategy_def)
next
  assume "static_cache s (request_key request) = None"
  then show "fetch_log (snd (cacheFirstStrategy net loc request s)) = fetch_log s @ [request]"
    by (simp add: cacheFirstStrategy_def cacheFirst_catch_def cache_put_def fetch_def
        split: sum.splits option.splits)
next
  assume a: "differ_only_in_stripped r1 r2 \<and> network_attempt_fails net r1 s
        \<and> network_attempt_fails net r2 s"
  then have k: "generateCacheKey r1 = generateCacheKey r2" by (simp add: generateCacheKey_differ)
  then show "request_key (generateCacheKey r1) = request_key (generateCacheKey r2)" by simp
  have "fst (apiCache_catch now (generateCacheKey r2) (s\<lparr>fetch_log := fetch_log s @ [r1]\<rparr>))
      = fst (apiCache_catch now (generateCacheKey r2) (s\<lparr>fetch_log := fetch_log s @ [r2]\<rparr>))"
    by (rule apiCache_catch_fst) simp
  then show "fst (networkFirstWithApiCache net now r1 s)
      = fst (networkFirstWithApiCache net now r2 s)"
    using a k by (simp add: apiCache_on_failure)
qed

theorem cacheFirst_uses_request_url_witness:
  "static_cache cached_asset_state (request_key (asset_request (Some ''cacheBuster=1'')))
     = Some (page 200 ''app'')
   \<and> fst (cacheFirstStrategy offline_net sample_loc (asset_request (Some ''cacheBuster=1''))
          cached_asset_state) = Inr (page 200 ''app'')
   \<and> static_cache cached_asset_state (request_key (asset_request (Some ''cacheBuster=2''))) = None
   \<and> fetch_log (snd (cacheFirstStrategy offline_net sample_loc
          (asset_request (Some ''cacheBuster=2'')) cached_asset_state))
       = [asset_request (Some ''cacheBuster=2'')]
   \<and> differ_only_in_stripped (sample_request (Some ''a=1&cacheBuster=123''))
         (sample_request (Some ''_=7&a=1&timestamp=99''))
   \<and> fst (networkFirstWithApiCache offline_net 3000000
          (sample_request (Some ''a=1&cacheBuster=123'')) cached_api_state)
       = fst (networkFirstWithApiCache offline_net 3000000
          (sample_request (Some ''_=7&a=1&timestamp=99'')) cached_api_state)"
proof -
  have h1: "static_cache cached_asset_state (request_key (asset_request (Some ''cacheBuster=1'')))
     = Some (page 200 ''app'')"
    by (simp add: asset_key cached_asset_state_def empty_state_def)
  have h2: "static_cache cached_asset_state (request_key (asset_request (Some ''cacheBuster=2'')))
     = None"
    by (simp add: asset_key cached_asset_state_def empty_state_def)
  have h3: "differ_only_in_stripped (sample_request (Some ''a=1&cacheBuster=123''))
         (sample_request (Some ''_=7&a=1&timestamp=99''))"
    by code_simp
  have e: "fetch_log cached_asset_state = []"
    by (simp add: cached_asset_state_def empty_state_def)
  show ?thesis
    using h1 h2 h3 e offline_fails
      cacheFirst_uses_request_url [of cached_asset_state "asset_request (Some ''cacheBuster=1'')"
        "page 200 ''app''" offline_net sample_loc]
      cacheFirst_uses_request_url [of cached_asset_state "asset_request (Some ''cacheBuster=2'')"
        "page 200 ''app''" offline_net sample_loc]
      cacheFirst_uses_request_url [where s = cached_api_state and net = offline_net
        and ?r1.0 = "sample_request (Some ''a=1&cacheBuster=123'')"
        and ?r2.0 = "sample_request (Some ''_=7&a=1&timestamp=99'')" and now = 3000000]
    by simp
qed

subsection \<open>What the strategies persist and how they settle\<close>

text \<open>
  C10, as the claim states it, fails: the store is attempted for every resolved response,
  but \<open>cache.put\<close> refuses a response with status 206. With a good copy cached and a
  fetch that resolves with a 206, \<open>networkFirstStrategy\<close> lands in its \<open>catch\<close> and
  serves the cached copy, \<open>networkFirstWithOfflineFallback\<close> stores nothing either: the
  cached copy is still there.
\<close>

theorem resolved_206_not_persisted_counterexample:
  "answering (page 206 ''part'') (length (fetch_log cached_asset_state))
       (asset_request (Some ''cacheBuster=1'')) = Inr (page 206 ''part'')
   \<and> networkFirstStrategy (answering (page 206 ''part'')) sample_loc
        (asset_request (Some ''cacheBuster=1'')) cached_asset_state
       = (Inr (page 200 ''app''),
          cached_asset_state\<lparr>fetch_log := [asset_request (Some ''cacheBuster=1'')]\<rparr>)
   \<and> static_cache (snd (networkFirstWithOfflineFallback (answering (page 206 ''part'')) sample_loc
          (asset_request (Some ''cacheBuster=1'')) cached_asset_state))
        ''https://dsog.example/delivery/app.js?cacheBuster=1'' = Some (page 200 ''app'')"
  by (simp add: networkFirstStrategy_def networkFirst_catch_def
      networkFirstWithOfflineFallback_def offlineFallback_catch_def cache_put_def
      put_rejects_def fetch_def answering_def page_def asset_key cached_asset_state_def
      empty_state_def split: option.splits)

text \<open>
  C10, amended. When the fetch resolves, \<open>networkFirstStrategy\<close> and
  \<open>networkFirstWithOfflineFallback\<close> hand the response to \<open>cache.put\<close> without looking
  at its status: unless \<open>put\<close> refuses it (status 206, or a \<open>Vary\<close> header with \<open>*\<close>)
  it is stored in the static namespace under the request, replacing what was there, a
  404 or a 500 as well; a refused response leaves the namespace as it was.
  \<open>cacheFirstStrategy\<close> changes the namespace only for an ok response: with no entry
  for the request it stores the response if it is ok and \<open>put\<close> accepts it, and
  nothing otherwise.
\<close>

theorem persist_unless_put_rejects:
  "(net (length (fetch_log s)) request = Inr resp \<longrightarrow>
     static_cache (snd (networkFirstStrategy net loc request s))
       = (if status resp = 206 \<or> vary_star resp then static_cache s
          else (static_cache s)(request_key request \<mapsto> resp))
   \<and> static_cache (snd (networkFirstWithOfflineFallback net loc request s))
       = (if status resp = 206 \<or> vary_star resp then static_cache s
          else (static_cache s)(request_key request \<mapsto> resp))
   \<and> (static_cache s (request_key request) = None \<longrightarrow>
        static_cache (snd (cacheFirstStrategy net loc request s))
          = (if ok resp \<and> \<not> (status resp = 206 \<or> vary_star resp)
             then (static_cache s)(request_key request \<mapsto> resp) else static_cache s))
   \<and> (static_cache (snd (cacheFirstStrategy net loc request s)) \<noteq> static_cache s \<longrightarrow>
        ok resp))
   \<and> (put_rejects resp \<longleftrightarrow> status resp = 206 \<or> vary_star resp)"
  by (auto simp: networkFirstStrategy_def networkFirst_catch_def
      networkFirstWithOfflineFallback_def offlineFallback_catch_def cacheFirstStrategy_def
      cacheFirst_catch_def cache_put_def put_rejects_def fetch_def split: option.splits)

theorem persist_unless_put_rejects_witness:
  "answering (page 404 ''gone'') (length (fetch_log cached_asset_state))
       (asset_request (Some ''cacheBuster=1'')) = Inr (page 404 ''gone'')
   \<and> static_cache cached_asset_state ''https://dsog.example/delivery/app.js?cacheBuster=1''
       = Some (page 200 ''app'')
   \<and> static_cache (snd (networkFirstStrategy (answering (page 404 ''gone'')) sample_loc
          (asset_request (Some ''cacheBuster=1'')) cached_asset_state))
        ''https://dsog.example/delivery/app.js?cacheBuster=1'' = Some (page 404 ''gone'')
   \<and> static_cache (snd (networkFirstWithOfflineFallback (answering (page 500 ''down'')) sample_loc
          (asset_request (Some ''cacheBuster=1'')) cached_asset_state))
        ''https://dsog.example/delivery/app.js?cacheBuster=1'' = Some (page 500 ''down'')
   \<and> static_cache cached_asset_state (request_key (asset_request (Some ''cacheBuster=2''))) = None
   \<and> static_cache (snd (cacheFirstStrategy (answering (page 404 ''gone'')) sample_loc
          (asset_request (Some ''cacheBuster=2'')) cached_asset_state))
        ''https://dsog.example/delivery/app.js?cacheBuster=2'' = None
   \<and> static_cache (snd (cacheFirstStrategy (answering (page 200 ''new'')) sample_loc
          (asset_request (Some ''cacheBuster=2'')) cached_asset_state))
        ''https://dsog.example/delivery/app.js?cacheBuster=2'' = Some (page 200 ''new'')
   \<and> static_cache (snd (networkFirstStrategy (answering (page 206 ''part'')) sample_loc
          (asset_request (Some ''cacheBuster=1'')) cached_asset_state))
        ''https://dsog.example/delivery/app.js?cacheBuster=1'' = Some (page 200 ''app'')"
proof -
  let ?S = cached_asset_state
  let ?r1 = "asset_request (Some ''cacheBuster=1'')"
  let ?r2 = "asset_request (Some ''cacheBuster=2'')"
  have a: "answering r n q = Inr r" for r n q
    by (simp add: answering_def)
  have c1: "static_cache ?S ''https://dsog.example/delivery/app.js?cacheBuster=1''
       = Some (page 200 ''app'')"
    by (simp add: cached_asset_state_def empty_state_def)
  have c2: "static_cache ?S (request_key ?r2) = None"
    by (simp add: asset_key cached_asset_state_def empty_state_def)
  have k: "\<not> ok (page 404 ''gone'')" "status (page 404 ''gone'') \<noteq> 206"
     "status (page 500 ''down'') \<noteq> 206" "status (page 206 ''part'') = 206"
     "ok (page 200 ''new'')" "status (page 200 ''new'') \<noteq> 206"
    by (simp_all add: ok_def page_def)
  have n404: "static_cache (snd (networkFirstStrategy (answering (page 404 ''gone'')) sample_loc
          ?r1 ?S)) = (static_cache ?S)(request_key ?r1 \<mapsto> page 404 ''gone'')"
    using persist_unless_put_rejects [of "answering (page 404 ''gone'')" ?S ?r1 "page 404 ''gone''" sample_loc,
        THEN conjunct1, THEN mp, OF a, THEN conjunct1] k page_plain by simp
  have o500: "static_cache (snd (networkFirstWithOfflineFallback (answering (page 500 ''down''))
          sample_loc ?r1 ?S)) = (static_cache ?S)(request_key ?r1 \<mapsto> page 500 ''down'')"
    using persist_unless_put_rejects [of "answering (page 500 ''down'')" ?S ?r1 "page 500 ''down''" sample_loc,
        THEN conjunct1, THEN mp, OF a, THEN conjunct2, THEN conjunct1] k page_plain
    by simp
  have c404: "static_cache (snd (cacheFirstStrategy (answering (page 404 ''gone'')) sample_loc
          ?r2 ?S)) = static_cache ?S"
    using persist_unless_put_rejects [of "answering (page 404 ''gone'')" ?S ?r2 "page 404 ''gone''" sample_loc,
        THEN conjunct1, THEN mp, OF a, THEN conjunct2, THEN conjunct2,
        THEN conjunct1, THEN mp, OF c2] k
    by simp
  have c200: "static_cache (snd (cacheFirstStrategy (answering (page 200 ''new'')) sample_loc
          ?r2 ?S)) = (static_cache ?S)(request_key ?r2 \<mapsto> page 200 ''new'')"
    using persist_unless_put_rejects [of "answering (page 200 ''new'')" ?S ?r2 "page 200 ''new''" sample_loc,
        THEN conjunct1, THEN mp, OF a, THEN conjunct2, THEN conjunct2,
        THEN conjunct1, THEN mp, OF c2] k page_plain
    by simp
  have n206: "static_cache (snd (networkFirstStrategy (answering (page 206 ''part'')) sample_loc
          ?r1 ?S)) = static_cache ?S"
    using persist_unless_put_rejects [of "answering (page 206 ''part'')" ?S ?r1 "page 206 ''part''" sample_loc,
        THEN conjunct1, THEN mp, OF a, THEN conjunct1] k by simp
  show ?thesis
    using a c1 c2 by (simp add: n404 o500 c404 c200 n206 asset_key)
qed




subsection \<open>The strategy dispatcher\<close>












text \<open>The listener on one request of every class.\<close>

lemma route_samples:
  "route sample_loc ((asset_request None)\<lparr>http_method := ''POST''\<rparr>) = None"
  "route sample_loc (https_request ''maps.googleapis.com'' ''/maps/api/js'' None) = Some NetworkFirst"
  "route sample_loc (https_request ''accounts.google.com'' ''/gsi/client'' None) = Some NetworkOnly"
  "route sample_loc (sample_request (Some ''cacheBuster=123'')) = Some NetworkFirstWithApiCache"
  "route sample_loc (https_request ''cdnjs.cloudflare.com''
      ''/ajax/libs/font-awesome/6.4.0/css/all.min.css'' None) = Some CacheFirst"
  "route sample_loc ((local_request sample_loc ''/delivery/'')\<lparr>headers := [(''accept'', ''text/html,*/*'')]\<rparr>)
     = Some NetworkFirstWithOfflineFallback"
  "route sample_loc (asset_request None) = Some CacheFirst"
  "route sample_loc (https_request ''i.postimg.cc'' ''/logo.png'' None) = Some NetworkFirst"
  by code_simp+




subsection \<open>The durable retry queue\<close>

lemma fetch_init_ok:
  "fetch_init net (replay_request e) s = (res, s1) \<Longrightarrow>
   s1 = s\<lparr>fetch_log := fetch_log s @ [replay_request e]\<rparr>
   \<and> (replayed_ok net (length (fetch_log s)) e \<longleftrightarrow> (\<exists>resp. res = Inr resp \<and> ok resp))"
  by (auto simp: fetch_init_def fetch_def replayed_ok_def split: if_splits sum.splits)

lemma replay_loop_log:
  "fetch_log (snd (replay_loop net es db s)) = fetch_log s @ map replay_request es"
proof (induction es arbitrary: db s)
  case Nil
  then show ?case by simp
next
  case (Cons e es)
  obtain res s1 where f: "fetch_init net (replay_request e) s = (res, s1)"
    by (cases "fetch_init net (replay_request e) s")
  then have s1: "fetch_log s1 = fetch_log s @ [replay_request e]"
    using fetch_init_ok [OF f] by simp
  show ?case
    using f s1 Cons.IH [of _ s1] by (simp split: sum.splits)
qed

lemma replay_loop_db:
  "fst (replay_loop net es db s) =
     filter (\<lambda>e. pr_id e \<notin> set (synced_ids net (length (fetch_log s)) es)) db"
proof (induction es arbitrary: db s)
  case Nil
  then show ?case by simp
next
  case (Cons e es)
  obtain res s1 where f: "fetch_init net (replay_request e) s = (res, s1)"
    by (cases "fetch_init net (replay_request e) s")
  note k = fetch_init_ok [OF f]
  have len: "length (fetch_log s1) = Suc (length (fetch_log s))" using k by simp
  show ?case
  proof (cases "replayed_ok net (length (fetch_log s)) e")
    case True
    then obtain resp where "res = Inr resp" "ok resp" using k by blast
    then show ?thesis
      using f True len Cons.IH [of "deletePendingRequest db (pr_id e)" s1]
      by (simp add: deletePendingRequest_def)
  next
    case False
    then have "(\<forall>resp. res = Inr resp \<longrightarrow> \<not> ok resp)" using k by blast
    then show ?thesis
      using f False len Cons.IH [of db s1] by (simp split: sum.splits)
  qed
qed

lemma synced_ids_subset: "set (synced_ids net n es) \<subseteq> pr_id ` set es"
  by (induction es arbitrary: n) auto

lemma synced_ids_nth:
  "distinct (map pr_id es) \<Longrightarrow> i < length es \<Longrightarrow>
   pr_id (es ! i) \<in> set (synced_ids net n es) \<longleftrightarrow> replayed_ok net (n + i) (es ! i)"
proof (induction es arbitrary: n i)
  case Nil
  then show ?case by simp
next
  case (Cons e es)
  show ?case
  proof (cases i)
    case 0
    then show ?thesis using Cons.prems synced_ids_subset [of net "Suc n" es] by auto
  next
    case (Suc k)
    then have "es ! k \<in> set es" using Cons.prems by simp
    moreover have "pr_id e \<notin> pr_id ` set es" using Cons.prems by simp
    ultimately have "pr_id (es ! k) \<noteq> pr_id e" by (metis imageI)
    then show ?thesis using Suc Cons.prems Cons.IH [of k "Suc n"] by auto
  qed
qed

lemma getAll_set:
  "set (getAllPendingRequests db) = {e \<in> set db. pr_timestamp e \<noteq> None}"
  by (simp add: getAllPendingRequests_def)

lemma getAll_all:
  "\<forall>e\<in>set db. pr_timestamp e \<noteq> None \<Longrightarrow>
   set (getAllPendingRequests db) = set db \<and> length (getAllPendingRequests db) = length db"
  by (auto simp: getAllPendingRequests_def)

lemma getAll_distinct: "distinct (map pr_id db) \<Longrightarrow> distinct (map pr_id (getAllPendingRequests db))"
  by (simp add: getAllPendingRequests_def distinct_map_filter distinct_map inj_on_def)

lemma getAll_sorted:
  "sorted (map (\<lambda>e. (pr_timestamp e, pr_id e)) (getAllPendingRequests db))"
  by (simp add: getAllPendingRequests_def)

lemma prod_le_fst: "(a, b) \<le> (c, d) \<Longrightarrow> a \<le> (c :: int option)" for b d :: nat
  by (auto simp: less_eq_prod_def)

lemma getAll_ascending:
  "sorted (map (\<lambda>e. the (pr_timestamp e)) (getAllPendingRequests db))"
proof -
  let ?es = "getAllPendingRequests db"
  have "the (pr_timestamp (?es ! i)) \<le> the (pr_timestamp (?es ! j))"
    if "i \<le> j" "j < length ?es" for i j
  proof -
    have "(pr_timestamp (?es ! i), pr_id (?es ! i)) \<le> (pr_timestamp (?es ! j), pr_id (?es ! j))"
      using getAll_sorted [of db] that by (simp add: sorted_iff_nth_mono)
    then have le: "pr_timestamp (?es ! i) \<le> pr_timestamp (?es ! j)" by (rule prod_le_fst)
    have "?es ! i \<in> set ?es" "?es ! j \<in> set ?es" using that by simp_all
    then obtain a b where "pr_timestamp (?es ! i) = Some a" "pr_timestamp (?es ! j) = Some b"
      by (auto simp: getAll_set)
    then show ?thesis using le by simp
  qed
  then show ?thesis by (simp add: sorted_iff_nth_mono)
qed

text \<open>A record that is not in the index is not replayed and stays in the store; a
  replay that the platform refuses to build (GET or HEAD with a body) is a failed one.\<close>

lemma sync_skips_unindexed:
  assumes "distinct (map pr_id db)" "e \<in> set db" "pr_timestamp e = None"
  shows "e \<in> set (fst (syncDeliveryRequests net db s))
    \<and> fetch_log (snd (syncDeliveryRequests net db s))
        = fetch_log s @ map replay_request (filter (\<lambda>e. pr_timestamp e \<noteq> None)
            (getAllPendingRequests db))"
proof -
  let ?es = "getAllPendingRequests db"
  have inj: "inj_on pr_id (set db)" using assms(1) by (simp add: distinct_map)
  have "pr_id e \<notin> pr_id ` set ?es"
  proof
    assume "pr_id e \<in> pr_id ` set ?es"
    then obtain e' where e': "e' \<in> set ?es" "pr_id e' = pr_id e" by auto
    then have "e' \<in> set db" "pr_timestamp e' \<noteq> None" by (simp_all add: getAll_set)
    then have "e' = e" using inj assms(2) e'(2) by (auto dest: inj_onD)
    then show False using assms(3) \<open>pr_timestamp e' \<noteq> None\<close> by simp
  qed
  then have "pr_id e \<notin> set (synced_ids net (length (fetch_log s)) ?es)"
    using synced_ids_subset [of net "length (fetch_log s)" ?es] by blast
  then have stay: "e \<in> set (fst (syncDeliveryRequests net db s))"
    using assms(2) by (simp add: syncDeliveryRequests_def replay_loop_db)
  have "filter (\<lambda>e. pr_timestamp e \<noteq> None) ?es = ?es"
    by (rule filter_True) (simp add: getAll_set)
  then show ?thesis
    using stay by (simp add: syncDeliveryRequests_def replay_loop_log)
qed

lemma body_forbidden_not_replayed:
  "body_forbidden (replay_request e) \<Longrightarrow> \<not> replayed_ok net n e"
  by (simp add: replayed_ok_def)

text \<open>
  C5. For a store whose records have distinct keys and a timestamp each,
  \<open>syncDeliveryRequests\<close> reads all records, in ascending order of \<open>timestamp\<close>, and
  makes exactly one call of \<open>fetch\<close> per record, in that order: \<open>fetch_log\<close> grows by as
  many calls as there are records, and call \<open>i\<close> has the method, the URL, the headers
  and the body stored in record \<open>i\<close>. The store it leaves holds only records of the store
  it started from, unchanged, and the record replayed as call \<open>i\<close> is still in it if and
  only if that replay did not come back with a 2xx status. A failed replay does not stop
  the later ones.
\<close>

theorem sync_replays_each_once:
  assumes "distinct (map pr_id db)" and "\<forall>e\<in>set db. pr_timestamp e \<noteq> None"
  shows "sorted (map (\<lambda>e. the (pr_timestamp e)) (getAllPendingRequests db))
    \<and> set (getAllPendingRequests db) = set db
    \<and> length (getAllPendingRequests db) = length db
    \<and> length (fetch_log (snd (syncDeliveryRequests net db s))) = length (fetch_log s) + length db
    \<and> take (length (fetch_log s)) (fetch_log (snd (syncDeliveryRequests net db s))) = fetch_log s
    \<and> (\<forall>i < length db.
          http_method (fetch_log (snd (syncDeliveryRequests net db s)) ! (length (fetch_log s) + i))
            = http_method (getAllPendingRequests db ! i)
          \<and> url (fetch_log (snd (syncDeliveryRequests net db s)) ! (length (fetch_log s) + i))
            = url (getAllPendingRequests db ! i)
          \<and> headers (fetch_log (snd (syncDeliveryRequests net db s)) ! (length (fetch_log s) + i))
            = headers (getAllPendingRequests db ! i)
          \<and> body (fetch_log (snd (syncDeliveryRequests net db s)) ! (length (fetch_log s) + i))
            = body (getAllPendingRequests db ! i))
    \<and> set (fst (syncDeliveryRequests net db s)) \<subseteq> set db
    \<and> (\<forall>i < length db.
          getAllPendingRequests db ! i \<in> set (fst (syncDeliveryRequests net db s))
          \<longleftrightarrow> \<not> replayed_ok net (length (fetch_log s) + i) (getAllPendingRequests db ! i))"
proof -
  let ?es = "getAllPendingRequests db"
  let ?log = "fetch_log (snd (syncDeliveryRequests net db s))"
  have d: "distinct (map pr_id ?es)" using assms(1) by (rule getAll_distinct)
  have all: "set ?es = set db" "length ?es = length db"
    using getAll_all [OF assms(2)] by simp_all
  have log: "?log = fetch_log s @ map replay_request ?es"
    by (simp add: syncDeliveryRequests_def replay_loop_log)
  have nth: "?log ! (length (fetch_log s) + i) = replay_request (?es ! i)" if "i < length db" for i
    using that all(2) by (simp add: log nth_append)
  have mem: "?es ! i \<in> set db" if "i < length db" for i
    using that all by (metis nth_mem)
  have sub: "set (fst (syncDeliveryRequests net db s)) \<subseteq> set db"
    by (auto simp: syncDeliveryRequests_def replay_loop_db)
  have last: "?es ! i \<in> set (fst (syncDeliveryRequests net db s))
          \<longleftrightarrow> \<not> replayed_ok net (length (fetch_log s) + i) (?es ! i)" if "i < length db" for i
    using that mem [OF that] synced_ids_nth [OF d, of i net "length (fetch_log s)"]
    by (simp add: syncDeliveryRequests_def replay_loop_db all(2))
  show ?thesis
  proof (intro conjI allI impI)
    show "sorted (map (\<lambda>e. the (pr_timestamp e)) ?es)" by (rule getAll_ascending)
    show "set ?es = set db" by (rule all(1))
    show "length ?es = length db" by (rule all(2))
    show "length ?log = length (fetch_log s) + length db" by (simp add: log all(2))
    show "take (length (fetch_log s)) ?log = fetch_log s" by (simp add: log)
    show "set (fst (syncDeliveryRequests net db s)) \<subseteq> set db" by (rule sub)
  next
    fix i assume i: "i < length db"
    show "http_method (?log ! (length (fetch_log s) + i)) = http_method (?es ! i)"
      by (simp add: nth [OF i] replay_request_def)
    show "url (?log ! (length (fetch_log s) + i)) = url (?es ! i)"
      by (simp add: nth [OF i] replay_request_def)
    show "headers (?log ! (length (fetch_log s) + i)) = headers (?es ! i)"
      by (simp add: nth [OF i] replay_request_def)
    show "body (?log ! (length (fetch_log s) + i)) = body (?es ! i)"
      by (simp add: nth [OF i] replay_request_def)
  next
    fix i assume "i < length db"
    then show "?es ! i \<in> set (fst (syncDeliveryRequests net db s))
          \<longleftrightarrow> \<not> replayed_ok net (length (fetch_log s) + i) (?es ! i)"
      by (rule last)
  qed
qed

theorem sync_replays_each_once_witness:
  "distinct (map pr_id sample_queue)
   \<and> list_all (\<lambda>e. pr_timestamp e \<noteq> None) sample_queue
   \<and> fetch_log (snd (syncDeliveryRequests (fails_at 1) sample_queue empty_state)) ! 0
       = \<lparr>http_method = ''POST'', url = sample_url None,
          headers = [(''Content-Type'', ''application/json'')], body = Some ''order''\<rparr>
   \<and> length (fetch_log (snd (syncDeliveryRequests (fails_at 1) sample_queue empty_state))) = 3
   \<and> sample_pending 3 20 \<in> set (fst (syncDeliveryRequests (fails_at 1) sample_queue empty_state))
   \<and> sample_pending 2 10 \<notin> set (fst (syncDeliveryRequests (fails_at 1) sample_queue empty_state))
   \<and> sample_pending 1 30 \<notin> set (fst (syncDeliveryRequests (fails_at 1) sample_queue empty_state))"
proof -
  let ?es = "[sample_pending 2 10, sample_pending 3 20, sample_pending 1 30]"
  let ?db' = "fst (syncDeliveryRequests (fails_at 1) sample_queue empty_state)"
  let ?log = "fetch_log (snd (syncDeliveryRequests (fails_at 1) sample_queue empty_state))"
  have d: "distinct (map pr_id sample_queue)"
    by (simp add: sample_queue_def sample_pending_def)
  have t: "\<forall>e\<in>set sample_queue. pr_timestamp e \<noteq> None"
    by (simp add: sample_queue_def sample_pending_def)
  have l: "length sample_queue = 3" by (simp add: sample_queue_def)
  have e: "fetch_log empty_state = []" by (simp add: empty_state_def)
  have r: "replayed_ok (fails_at 1) 0 (sample_pending 2 10)"
     "\<not> replayed_ok (fails_at 1) 1 (sample_pending 3 20)"
     "replayed_ok (fails_at 1) 2 (sample_pending 1 30)"
    by code_simp+
  note T = sync_replays_each_once [OF d t, of "fails_at 1" empty_state]
  from T have len: "length ?log = 3" by (simp add: e l)
  from T have f: "\<forall>i<3. http_method (?log ! i) = http_method (?es ! i)
      \<and> url (?log ! i) = url (?es ! i) \<and> headers (?log ! i) = headers (?es ! i)
      \<and> body (?log ! i) = body (?es ! i)"
    by (simp add: sample_queue_sorted e l)
  have first: "?log ! 0 = \<lparr>http_method = ''POST'', url = sample_url None,
          headers = [(''Content-Type'', ''application/json'')], body = Some ''order''\<rparr>"
    using f [rule_format, of 0] by (cases "?log ! 0") (simp add: sample_pending_def)
  from T have q: "\<forall>i<3. ?es ! i \<in> set ?db' \<longleftrightarrow> \<not> replayed_ok (fails_at 1) i (?es ! i)"
    by (simp add: sample_queue_sorted e l)
  have q0: "sample_pending 2 10 \<notin> set ?db'" using q [rule_format, of 0] r by simp
  have q1: "sample_pending 3 20 \<in> set ?db'" using q [rule_format, of 1] r by simp
  have q2: "sample_pending 1 30 \<notin> set ?db'" using q [rule_format, of 2] r by simp
  show ?thesis using d t len first q0 q1 q2 by (simp add: list_all_iff)
qed

subsection \<open>The install listener\<close>

lemma fetch_each_Cons:
  "fetch_each net (r # rs) s =
     (net (length (fetch_log s)) r # fst (fetch_each net rs (s\<lparr>fetch_log := fetch_log s @ [r]\<rparr>)),
      snd (fetch_each net rs (s\<lparr>fetch_log := fetch_log s @ [r]\<rparr>)))"
  by (simp add: fetch_def split: prod.splits)

lemma fetch_each_state: "snd (fetch_each net rs s) = s\<lparr>fetch_log := fetch_log s @ rs\<rparr>"
  by (induction rs arbitrary: s) (simp_all add: fetch_each_Cons del: fetch_each.simps(2))

lemma fetch_each_length: "length (fst (fetch_each net rs s)) = length rs"
  by (induction rs arbitrary: s) (simp_all add: fetch_each_Cons del: fetch_each.simps(2))

lemma fetch_each_nth:
  "i < length rs \<Longrightarrow> fst (fetch_each net rs s) ! i = net (length (fetch_log s) + i) (rs ! i)"
proof (induction rs arbitrary: s i)
  case Nil
  then show ?case by simp
next
  case (Cons r rs)
  show ?case
  proof (cases i)
    case 0
    then show ?thesis by (simp add: fetch_each_Cons del: fetch_each.simps(2))
  next
    case (Suc k)
    then have "k < length rs" using Cons.prems by simp
    then show ?thesis
      using Cons.IH [of k "s\<lparr>fetch_log := fetch_log s @ [r]\<rparr>"] Suc
      by (simp add: fetch_each_Cons del: fetch_each.simps(2))
  qed
qed

lemma addAll_rejects:
  assumes "i < length rs" "\<not> fetched_ok (net (length (fetch_log s) + i) (rs ! i))"
  shows "addAll net rs s = (Inl TypeError, s\<lparr>fetch_log := fetch_log s @ rs\<rparr>)"
proof -
  have "fst (fetch_each net rs s) ! i \<in> set (fst (fetch_each net rs s))"
    using assms(1) by (simp add: fetch_each_length)
  then have "\<not> list_all fetched_ok (fst (fetch_each net rs s))"
    using assms by (auto simp: list_all_iff fetch_each_nth)
  then show ?thesis
    using fetch_each_state [of net rs s]
    by (auto simp: addAll_def split: prod.splits)
qed

text \<open>
  C2. When the fetch of one URL of the warm-up set fails, \<open>cache.addAll\<close> rejects and
  stores nothing, so the static namespace is as it was, \<open>skipWaiting\<close> is not called and
  the listener logs that the installation failed. But the \<open>catch\<close> of sw.js 40-42 only
  logs: the promise handed to \<open>event.waitUntil\<close> fulfils, so the browser is told the
  installation succeeded.
\<close>

theorem install_swallows_failure:
  "(\<exists>i < length (PRECACHE_URLS loc).
       \<not> fetched_ok (net (length (fetch_log s) + i) (PRECACHE_URLS loc ! i))) \<longrightarrow>
   waitUntil (fst (install_listener net loc s)) = Inr ()
   \<and> \<not> skipWaiting (fst (install_listener net loc s))
   \<and> last (console (fst (install_listener net loc s))) = ''Service Worker: Installation failed:''
   \<and> static_cache (snd (install_listener net loc s)) = static_cache s"
proof
  assume "\<exists>i < length (PRECACHE_URLS loc).
       \<not> fetched_ok (net (length (fetch_log s) + i) (PRECACHE_URLS loc ! i))"
  then obtain i where "i < length (PRECACHE_URLS loc)"
      "\<not> fetched_ok (net (length (fetch_log s) + i) (PRECACHE_URLS loc ! i))" by blast
  then have "addAll net (PRECACHE_URLS loc) s =
      (Inl TypeError, s\<lparr>fetch_log := fetch_log s @ PRECACHE_URLS loc\<rparr>)"
    by (rule addAll_rejects)
  then show "waitUntil (fst (install_listener net loc s)) = Inr ()
   \<and> \<not> skipWaiting (fst (install_listener net loc s))
   \<and> last (console (fst (install_listener net loc s))) = ''Service Worker: Installation failed:''
   \<and> static_cache (snd (install_listener net loc s)) = static_cache s"
    by (simp add: install_listener_def)
qed

theorem install_swallows_failure_witness:
  "\<not> fetched_ok (fails_at 1 (length (fetch_log empty_state) + 1) (PRECACHE_URLS sample_loc ! 1))
   \<and> waitUntil (fst (install_listener (fails_at 1) sample_loc empty_state)) = Inr ()
   \<and> \<not> skipWaiting (fst (install_listener (fails_at 1) sample_loc empty_state))
   \<and> static_cache (snd (install_listener (fails_at 1) sample_loc empty_state)) = Map.empty"
proof -
  have h: "\<not> fetched_ok (fails_at 1 (length (fetch_log empty_state) + 1) (PRECACHE_URLS sample_loc ! 1))"
    by (simp add: fetched_ok_def fails_at_def empty_state_def)
  have l: "1 < length (PRECACHE_URLS sample_loc)" by (simp add: PRECACHE_URLS_def)
  have e: "static_cache empty_state = Map.empty" by (simp add: empty_state_def)
  show ?thesis
    using h l e install_swallows_failure [of sample_loc "fails_at 1" empty_state]
    by auto
qed

subsection \<open>The push listener\<close>

text \<open>
  C9, as the claim states it, fails: a payload that is not JSON makes
  \<open>event.data.json()\<close> throw, and the listener has no handler for it; the error leaves
  the listener instead of a silent return. (A payload that decodes to \<open>null\<close> shows no
  notification either: reading \<open>data.body\<close> throws a TypeError.)
\<close>

theorem push_uncaught_counterexample:
  "push_listener 0 (Some (Inl SyntaxError)) = Inl SyntaxError
   \<and> push_listener 0 (Some (Inl SyntaxError)) \<noteq> Inr None
   \<and> push_listener 0 (Some (Inr JNull)) = Inl TypeError"
  by (simp add: push_listener_def get_prop_def)

text \<open>
  C9, amended. The push listener returns without showing anything when the event has no
  payload; when \<open>event.data.json()\<close> throws, the error propagates out of the listener
  and no notification is shown; when the payload decodes to a value other than \<open>null\<close>,
  a notification is shown whose data carries the payload's \<open>url\<close>, or \<open>/delivery/\<close>
  when the payload has no (truthy) \<open>url\<close>.
\<close>

theorem push_listener_cases:
  "push_listener now None = Inr None
   \<and> push_listener now (Some (Inl err)) = Inl err
   \<and> (data \<noteq> JNull \<longrightarrow>
        (\<exists>n u. get_prop data ''url'' = Inr u
           \<and> push_listener now (Some (Inr data)) = Inr (Some n)
           \<and> n_data_url n = js_or u (JStr ''/delivery/'')))"
  by (cases data) (auto simp: push_listener_def get_prop_def)

theorem push_listener_cases_witness:
  "JObj [(''title'', JStr ''Rider assigned''), (''url'', JStr ''/delivery/track'')] \<noteq> JNull
   \<and> (\<exists>n. push_listener 5 (Some (Inr (JObj [(''title'', JStr ''Rider assigned''),
            (''url'', JStr ''/delivery/track'')]))) = Inr (Some n)
        \<and> n_data_url n = JStr ''/delivery/track'')"
  using push_listener_cases [of 5 undefined
      "JObj [(''title'', JStr ''Rider assigned''), (''url'', JStr ''/delivery/track'')]"]
  by (auto simp: get_prop_def js_or_def)

end
